theory Spec2Isabelle
  imports Complex_Main "HOL-Library.AList"
begin

section \<open>Shared vocabulary of \<^verbatim>\<open>paleomix/core/workers.py\<close>\<close>

text \<open>
  The worker connection states (\<^verbatim>\<open>_UNINITIALIZED\<close>, \<^verbatim>\<open>_CONNECTING\<close>, \<^verbatim>\<open>_RUNNING\<close>,
  \<^verbatim>\<open>_TERMINATED\<close>) and the exceptions that the modelled code raises or ships around.
\<close>

datatype status = UNINITIALIZED | CONNECTING | RUNNING | TERMINATED

datatype error =
    WorkerError string
  | NodeError string
  | KeyError
  | TypeError
  | AssertionError
  | AttributeError
  | OverflowError
  | CmdError string
  | OSError string
  | ProcessError string
  | EOFError
  | OtherError string

text \<open>
  A call either returns, raises, or never returns (a blocking \<^verbatim>\<open>join\<close> or \<^verbatim>\<open>Queue.get\<close>).
  Every operation hands back the object it mutated next to its outcome, so that the state
  left behind by a raise is visible.
\<close>

datatype 'a outcome = Return 'a | Raise error | Blocks

definition and_then :: "'s \<times> 'a outcome \<Rightarrow> ('s \<Rightarrow> 'a \<Rightarrow> 's \<times> 'b outcome) \<Rightarrow> 's \<times> 'b outcome" where
  "and_then r f =
     (case r of
        (s, Return a) \<Rightarrow> f s a
      | (s, Raise e) \<Rightarrow> (s, Raise e)
      | (s, Blocks) \<Rightarrow> (s, Blocks))"

text \<open>
  Modelled from the spec: the class \<^verbatim>\<open>Node\<close> (module \<^verbatim>\<open>paleomix.node\<close>) is not among
  the sources. The workers use two attributes of it: the process-unique integer \<^verbatim>\<open>id\<close>
  and \<^verbatim>\<open>threads\<close>, "a non-negative integer".
\<close>

record node =
  node_id :: int
  node_threads :: nat

text \<open>
  Events are dictionaries with an \<^verbatim>\<open>"event"\<close> discriminator. \<open>wire\<close> is what a remote
  worker sends over its connection, \<open>event\<close> what a worker's \<^verbatim>\<open>get\<close> and the manager's
  \<^verbatim>\<open>poll\<close> yield (\<^verbatim>\<open>TASK_DONE\<close> with the task substituted for its id, \<^verbatim>\<open>CAPACITY\<close> with
  the idle threads and the overcommit flag). \<open>sent\<close> is what the manager sends.
\<close>

datatype wire =
    W_HANDSHAKE_RESPONSE "string option"
  | W_CAPACITY int
  | W_TASK_DONE int "error option" "string list option"
  | W_SHUTDOWN
  | W_OTHER string

datatype event =
    EVT_HANDSHAKE_RESPONSE "string option"
  | EVT_CAPACITY int bool
  | EVT_TASK_DONE node "error option" "string list option"
  | EVT_SHUTDOWN

datatype sent = S_HANDSHAKE | S_TASK_START node string | S_SHUTDOWN

text \<open>Python dictionaries keep insertion order: association lists with distinct keys.\<close>

definition dict_pop :: "('k \<times> 'v) list \<Rightarrow> 'k \<Rightarrow> ('v \<times> ('k \<times> 'v) list) option" where
  "dict_pop d k = (case map_of d k of None \<Rightarrow> None | Some v \<Rightarrow> Some (v, AList.delete k d))"

definition dict_values :: "('k \<times> 'v) list \<Rightarrow> 'v list" where
  "dict_values d = map snd d"

text \<open>The decimal rendering of an integer inside an f-string.\<close>

definition digit_char :: "nat \<Rightarrow> char" where
  "digit_char d = ''0123456789'' ! d"

function string_of_nat :: "nat \<Rightarrow> string" where
  "string_of_nat n = (if n < 10 then [digit_char n] else string_of_nat (n div 10) @ [digit_char (n mod 10)])"
  by pat_completeness auto
termination
  by (relation "measure id") auto

declare string_of_nat.simps [simp del]

definition string_of_int :: "int \<Rightarrow> string" where
  "string_of_int i = (if i < 0 then CHR ''-'' # string_of_nat (nat (- i)) else string_of_nat (nat i))"

section \<open>LocalWorker\<close>

text \<open>
  A child process is known by its sentinel (the pollable handle) and its exit code, which is
  \<open>None\<close> while the child runs. The completion queue carries
  \<^verbatim>\<open>(task_id, error, backtrace)\<close> triples in the order the children put them.
\<close>

type_synonym handle = nat

record proc =
  exitcode :: "int option"

type_synonym queue_message = "int \<times> error option \<times> string list option"

record local_worker =
  lw_id :: string
  lw_queue :: "queue_message list"
  lw_handles :: "(handle \<times> proc \<times> node) list"
  lw_running :: "(int \<times> node) list"
  lw_status :: status
  lw_threads :: int
  lw_events :: "event list"

definition LocalWorker :: "string \<Rightarrow> int \<Rightarrow> local_worker" where
  "LocalWorker uuid threads =
     \<lparr>lw_id = uuid, lw_queue = [], lw_handles = [], lw_running = [],
      lw_status = UNINITIALIZED, lw_threads = threads, lw_events = []\<rparr>"

definition local_connect :: "local_worker \<Rightarrow> bool \<Rightarrow> local_worker \<times> bool outcome" where
  "local_connect w requirements_ok =
     (if lw_status w \<noteq> UNINITIALIZED
      then (w, Raise (WorkerError ''Attempted to start already initialized LocalWorker''))
      else if \<not> requirements_ok then (w, Return False)
      else (w\<lparr>lw_status := RUNNING,
              lw_events := lw_events w @ [EVT_HANDSHAKE_RESPONSE None]\<rparr>, Return True))"

definition local_start_task :: "local_worker \<Rightarrow> node \<Rightarrow> handle \<Rightarrow> local_worker \<times> bool outcome" where
  "local_start_task w task sentinel =
     (if lw_status w \<noteq> RUNNING then (w, Raise (WorkerError ''LocalWorker is not running''))
      else (w\<lparr>lw_handles := AList.update sentinel (\<lparr>exitcode = None\<rparr>, task) (lw_handles w),
              lw_running := AList.update (node_id task) task (lw_running w)\<rparr>, Return True))"

definition local_get :: "local_worker \<Rightarrow> handle \<Rightarrow> local_worker \<times> event list outcome" where
  "local_get w h =
     (if lw_status w \<noteq> RUNNING then (w, Raise (WorkerError ''LocalWorker is not running''))
      else case dict_pop (lw_handles w) h of
        None \<Rightarrow> (w, Raise KeyError)
      | Some ((p, task), handles') \<Rightarrow>
          let w1 = w\<lparr>lw_handles := handles'\<rparr> in
          (case exitcode p of
             None \<Rightarrow> (w1, Blocks)
           | Some code \<Rightarrow>
               if code \<noteq> 0
               then (w1, Return [EVT_TASK_DONE task
                      (Some (NodeError (''Process terminated with exit code '' @ string_of_int code)))
                      None])
               else (case lw_queue w1 of
                       [] \<Rightarrow> (w1, Blocks)
                     | (key, err, backtrace) # queue' \<Rightarrow>
                         let w2 = w1\<lparr>lw_queue := queue'\<rparr> in
                         (case dict_pop (lw_running w2) key of
                            None \<Rightarrow> (w2, Raise KeyError)
                          | Some (task', running') \<Rightarrow>
                              (w2\<lparr>lw_running := running'\<rparr>,
                               Return [EVT_TASK_DONE task' err backtrace])))))"

section \<open>RemoteWorker\<close>

text \<open>
  The connection of a remote worker is modelled by what matters to the manager: whether it
  is closed, and the list of messages written to it. What the worker will answer comes from
  the environment, as a list of \<open>recv\<close> items per readable connection: a decoded message or
  a broken connection (\<^verbatim>\<open>ConnectionError\<close>, \<^verbatim>\<open>EOFError\<close>).
\<close>

record remote_worker =
  rw_id :: string
  rw_closed :: bool
  rw_status :: status
  rw_host :: string
  rw_port :: int
  rw_secret :: string
  rw_running :: "(int \<times> node) list"
  rw_threads :: int
  rw_name :: string
  rw_sent :: "sent list"

datatype recv = Recv wire | Broken

text \<open>
  The tests of the two places that catch exceptions by class: \<^verbatim>\<open>contextlib.suppress(OSError)\<close>
  in \<^verbatim>\<open>address_to_name\<close> and \<^verbatim>\<open>except (OSError, ProcessError)\<close> in
  \<^verbatim>\<open>RemoteWorker.connect\<close>.
\<close>

definition is_OSError :: "error \<Rightarrow> bool" where
  "is_OSError e = (case e of OSError msg \<Rightarrow> True | _ \<Rightarrow> False)"

definition is_ProcessError :: "error \<Rightarrow> bool" where
  "is_ProcessError e = (case e of ProcessError msg \<Rightarrow> True | _ \<Rightarrow> False)"

text \<open>
  \<^verbatim>\<open>address_to_name\<close> for a pair of host and port. \<open>getnameinfo\<close> is \<^verbatim>\<open>socket.getnameinfo\<close>:
  it returns a host name or raises; an \<^verbatim>\<open>OSError\<close> is suppressed and leaves the host as
  given, any other exception is let through.
\<close>

definition address_to_name :: "(string \<Rightarrow> int \<Rightarrow> error + string) \<Rightarrow> string \<Rightarrow> int \<Rightarrow> error + string" where
  "address_to_name getnameinfo host port =
     (case getnameinfo host port of
        Inr h \<Rightarrow> Inr (h @ '':'' @ string_of_int port)
      | Inl e \<Rightarrow> if is_OSError e then Inr (host @ '':'' @ string_of_int port) else Inl e)"

definition RemoteWorker :: "string \<Rightarrow> string \<Rightarrow> string \<Rightarrow> int \<Rightarrow> string \<Rightarrow> remote_worker" where
  "RemoteWorker name ident host port secret =
     \<lparr>rw_id = ident, rw_closed = False, rw_status = UNINITIALIZED, rw_host = host,
      rw_port = port, rw_secret = secret, rw_running = [], rw_threads = 0, rw_name = name,
      rw_sent = []\<rparr>"

definition remote_check_running :: "remote_worker \<Rightarrow> error option" where
  "remote_check_running w =
     (if rw_status w \<noteq> RUNNING \<and> rw_status w \<noteq> CONNECTING
      then Some (WorkerError (''RemoteWorker '' @ rw_name w @ '' is not running''))
      else None)"

text \<open>
  \<open>raised\<close> is what opening the client connection and sending the handshake raise, \<open>None\<close>
  when both succeed. \<^verbatim>\<open>connect\<close> catches \<^verbatim>\<open>OSError\<close> and \<^verbatim>\<open>ProcessError\<close> (a failed
  authentication is one) and nothing else: an \<^verbatim>\<open>EOFError\<close> from a peer that hangs up
  during the authentication goes through. A port outside 0..65535 makes the socket raise
  \<^verbatim>\<open>OverflowError\<close>, which \<^verbatim>\<open>connect\<close> does not catch either.
\<close>

definition remote_connect :: "remote_worker \<Rightarrow> error option \<Rightarrow> remote_worker \<times> bool outcome" where
  "remote_connect w raised =
     (if rw_status w \<noteq> UNINITIALIZED
      then (w, Raise (WorkerError ''Attempted to start already initialized RemoteWorker''))
      else if rw_port w < 0 \<or> 65535 < rw_port w then (w, Raise OverflowError)
      else case raised of
             None \<Rightarrow>
               (w\<lparr>rw_status := CONNECTING, rw_sent := rw_sent w @ [S_HANDSHAKE]\<rparr>, Return True)
           | Some e \<Rightarrow>
               if is_OSError e \<or> is_ProcessError e then (w, Return False) else (w, Raise e))"

definition remote_shutdown :: "remote_worker \<Rightarrow> remote_worker" where
  "remote_shutdown w =
     (let w1 = w\<lparr>rw_status := TERMINATED\<rparr> in
      if \<not> rw_closed w1
      then w1\<lparr>rw_sent := rw_sent w1 @ [S_SHUTDOWN], rw_closed := True\<rparr>
      else w1)"

text \<open>\<open>send_ok\<close>: writing to the connection does not fail with \<^verbatim>\<open>OSError\<close>.\<close>

definition remote_start_task :: "remote_worker \<Rightarrow> node \<Rightarrow> string \<Rightarrow> bool \<Rightarrow> remote_worker \<times> bool outcome" where
  "remote_start_task w task temp_root send_ok =
     (case remote_check_running w of
        Some e \<Rightarrow> (w, Raise e)
      | None \<Rightarrow>
          if \<not> send_ok then (w, Return False)
          else (w\<lparr>rw_sent := rw_sent w @ [S_TASK_START task temp_root],
                  rw_running := AList.update (node_id task) task (rw_running w)\<rparr>, Return True))"

text \<open>
  The handler table keyed by \<^verbatim>\<open>(status, event)\<close>: \<^verbatim>\<open>_event_handshake\<close>,
  \<^verbatim>\<open>_event_capacity\<close>, \<^verbatim>\<open>_event_task_done\<close>, \<^verbatim>\<open>_event_shutdown\<close>; any other pair is logged
  and dropped.
\<close>

fun remote_handle :: "remote_worker \<Rightarrow> wire \<Rightarrow> remote_worker \<times> event list outcome" where
  "remote_handle w (W_HANDSHAKE_RESPONSE err) =
     (if rw_status w = CONNECTING
      then ((case err of None \<Rightarrow> w\<lparr>rw_status := RUNNING\<rparr> | Some _ \<Rightarrow> remote_shutdown w),
            Return [EVT_HANDSHAKE_RESPONSE err])
      else (w, Return []))"
| "remote_handle w (W_CAPACITY n) =
     (if rw_status w = RUNNING then (w\<lparr>rw_threads := n\<rparr>, Return []) else (w, Return []))"
| "remote_handle w (W_TASK_DONE task_id err backtrace) =
     (if rw_status w = RUNNING
      then (case dict_pop (rw_running w) task_id of
              None \<Rightarrow> (w, Raise KeyError)
            | Some (task, running') \<Rightarrow>
                (w\<lparr>rw_running := running'\<rparr>, Return [EVT_TASK_DONE task err backtrace]))
      else (w, Return []))"
| "remote_handle w W_SHUTDOWN =
     (if rw_status w = RUNNING
      then (w\<lparr>rw_status := TERMINATED, rw_running := [], rw_closed := True\<rparr>, Return [EVT_SHUTDOWN])
      else (w, Return []))"
| "remote_handle w (W_OTHER _) = (w, Return [])"

text \<open>
  The receive loop of \<^verbatim>\<open>RemoteWorker.get\<close>: it runs while the connection is open and has
  something to read. A raise inside the generator reaches the caller before the caller has
  stored any of the events, so a raise carries no events. The manager calls \<^verbatim>\<open>get\<close> with
  the worker's own connection only, so the \<^verbatim>\<open>ValueError\<close> for a foreign handle has no
  branch here.
\<close>

fun remote_get_loop :: "remote_worker \<Rightarrow> recv list \<Rightarrow> remote_worker \<times> event list outcome" where
  "remote_get_loop w [] = (w, Return [])"
| "remote_get_loop w (x # xs) =
     (if rw_closed w then (w, Return [])
      else case x of
        Broken \<Rightarrow>
          if rw_status w \<noteq> TERMINATED then (remote_shutdown w, Return [EVT_SHUTDOWN])
          else (w, Return [])
      | Recv msg \<Rightarrow>
          and_then (remote_handle w msg) (\<lambda>w1 evs.
            and_then (remote_get_loop w1 xs) (\<lambda>w2 evs'. (w2, Return (evs @ evs')))))"

definition remote_get :: "remote_worker \<Rightarrow> recv list \<Rightarrow> remote_worker \<times> event list outcome" where
  "remote_get w incoming =
     (case remote_check_running w of
        Some e \<Rightarrow> (w, Raise e)
      | None \<Rightarrow> remote_get_loop w incoming)"

section \<open>The manager's view of its workers\<close>

datatype worker = Local local_worker | Remote remote_worker

fun worker_id :: "worker \<Rightarrow> string" where
  "worker_id (Local w) = lw_id w"
| "worker_id (Remote w) = rw_id w"

fun worker_threads :: "worker \<Rightarrow> int" where
  "worker_threads (Local w) = lw_threads w"
| "worker_threads (Remote w) = rw_threads w"

fun worker_tasks :: "worker \<Rightarrow> node list" where
  "worker_tasks (Local w) = dict_values (lw_running w)"
| "worker_tasks (Remote w) = dict_values (rw_running w)"

fun worker_status :: "worker \<Rightarrow> status" where
  "worker_status (Local w) = lw_status w"
| "worker_status (Remote w) = rw_status w"

text \<open>The tail of \<^verbatim>\<open>Manager.poll\<close>: the synthesized \<^verbatim>\<open>CAPACITY\<close> events.\<close>

definition idle_threads :: "worker \<Rightarrow> int" where
  "idle_threads w = worker_threads w - int (sum_list (map node_threads (worker_tasks w)))"

definition max_threads :: "worker list \<Rightarrow> int" where
  "max_threads ws =
     (case ws of [] \<Rightarrow> 0 | w # rest \<Rightarrow> fold max (map worker_threads rest) (worker_threads w))"

definition capacity_event :: "int \<Rightarrow> worker \<Rightarrow> (string \<times> event) list" where
  "capacity_event mx w =
     (if idle_threads w > 0
      then [(worker_id w, EVT_CAPACITY (idle_threads w) (mx \<noteq> 0 \<and> idle_threads w = mx))]
      else [])"

definition capacity_events :: "(string \<times> worker) list \<Rightarrow> (string \<times> event) list" where
  "capacity_events workers =
     concat (map (capacity_event (max_threads (dict_values workers))) (dict_values workers))"

section \<open>Manager\<close>

text \<open>
  What the manager does to the world outside its own objects is recorded in order: reading a
  discovery file, trying to connect to an address with a secret, unlinking a file.
\<close>

datatype effect =
    Read_file string
  | Connect_attempt string string int string
  | Unlink string

record manager =
  m_local :: "string option"
  m_workers :: "(string \<times> worker) list"
  m_json_blacklist :: "string set"
  m_worker_blacklist :: "string set"
  m_threads :: int
  m_temp_root :: string
  m_next_auto_connect :: "real option"
  m_effects :: "effect list"

text \<open>
  \<open>m_local\<close> holds the id under which the local worker is stored in \<open>m_workers\<close>: in the
  source \<^verbatim>\<open>_local\<close> and \<^verbatim>\<open>_workers[_local.id]\<close> are one object. \<open>m_next_auto_connect\<close>
  is \<open>None\<close> for \<^verbatim>\<open>float("inf")\<close>.
\<close>

definition Manager :: "int \<Rightarrow> string \<Rightarrow> bool \<Rightarrow> manager" where
  "Manager threads temp_root auto_connect =
     \<lparr>m_local = None, m_workers = [], m_json_blacklist = {}, m_worker_blacklist = {},
      m_threads = threads, m_temp_root = temp_root,
      m_next_auto_connect = (if auto_connect then Some 0 else None), m_effects = []\<rparr>"

text \<open>
  The discovery directory as \<^verbatim>\<open>os.listdir\<close> shows it: each entry with its joined path,
  whether it is a regular file, and what reading it gives. \<open>Unreadable\<close> is an
  \<^verbatim>\<open>OSError\<close> from \<^verbatim>\<open>open\<close>, \<open>Invalid_json\<close> a \<^verbatim>\<open>ValueError\<close> from \<^verbatim>\<open>json.load\<close>,
  \<open>Not_object\<close> JSON that is no object (the item assignment raises \<^verbatim>\<open>TypeError\<close>, which
  is not caught), \<open>Object\<close> a JSON object with the keys it has. The value under
  \<^verbatim>\<open>secret\<close> is a string or some other JSON value, on which \<^verbatim>\<open>.encode\<close> raises an
  \<^verbatim>\<open>AttributeError\<close> that is not caught. The values under \<^verbatim>\<open>id\<close>, \<^verbatim>\<open>host\<close> and
  \<^verbatim>\<open>port\<close> are taken at the types that the constructor of \<^verbatim>\<open>RemoteWorker\<close> declares.
\<close>

datatype secret_value = Secret_string string | Secret_other

record worker_file =
  f_id :: "string option"
  f_host :: "string option"
  f_port :: "int option"
  f_secret :: "secret_value option"

datatype content = Unreadable | Invalid_json | Not_object | Object worker_file

record dirent =
  d_filename :: string
  d_isfile :: bool
  d_content :: content

record info =
  i_id :: "string option"
  i_host :: "string option"
  i_port :: "int option"
  i_secret :: string
  i_filename :: string

datatype key_event = ThreadsEvent int | ListTasksEvent

datatype ready = Ready_keyboard "key_event list" | Ready_local handle | Ready_remote string "recv list"

text \<open>
  Everything one call of the manager reads from outside: the clock, the discovery directory,
  the base64 codec (\<open>None\<close> for \<^verbatim>\<open>binascii.Error\<close>), what connecting to an address
  raises (\<open>None\<close> when the connection is made and the handshake sent), what name resolution
  returns or raises, the fresh uuid of a local worker, the outcome of the version checks, the
  CPU count, and what happens while \<^verbatim>\<open>wait\<close> sleeps: the messages children put on the
  queue, the children that exit, and the handles \<^verbatim>\<open>wait\<close> reports readable.
\<close>

record world =
  w_now :: real
  w_isdir :: bool
  w_listdir :: "dirent list"
  w_b64decode :: "string \<Rightarrow> string option"
  w_connect :: "string \<Rightarrow> int \<Rightarrow> error option"
  w_getnameinfo :: "string \<Rightarrow> int \<Rightarrow> error + string"
  w_uuid :: string
  w_requirements_ok :: bool
  w_cpu_count :: int
  w_puts :: "queue_message list"
  w_exits :: "(handle \<times> int) list"
  w_ready :: "ready list"

definition endswith :: "string \<Rightarrow> string \<Rightarrow> bool" where
  "endswith s suffix = (length suffix \<le> length s \<and> drop (length s - length suffix) s = suffix)"

definition add_effect :: "effect \<Rightarrow> manager \<Rightarrow> manager" where
  "add_effect e m = m\<lparr>m_effects := m_effects m @ [e]\<rparr>"

definition json_blacklist_add :: "string \<Rightarrow> manager \<Rightarrow> manager" where
  "json_blacklist_add filename m = m\<lparr>m_json_blacklist := insert filename (m_json_blacklist m)\<rparr>"

text \<open>
  One turn of the loop in \<^verbatim>\<open>_collect_workers\<close>: \<open>Return None\<close> where the source continues
  with the next file, \<open>Return (Some data)\<close> where it yields.
\<close>

definition collect_workers_file :: "manager \<Rightarrow> world \<Rightarrow> dirent \<Rightarrow> manager \<times> info option outcome" where
  "collect_workers_file m world d =
     (let filename = d_filename d in
      if filename \<in> m_json_blacklist m \<or> \<not> (endswith filename ''.json'' \<and> d_isfile d)
      then (m, Return None)
      else
        let m1 = add_effect (Read_file filename) m in
        case d_content d of
          Unreadable \<Rightarrow> (json_blacklist_add filename m1, Return None)
        | Invalid_json \<Rightarrow> (json_blacklist_add filename m1, Return None)
        | Not_object \<Rightarrow> (m1, Raise TypeError)
        | Object data \<Rightarrow>
            (case f_secret data of
               None \<Rightarrow> (json_blacklist_add filename m1, Return None)
             | Some Secret_other \<Rightarrow> (m1, Raise AttributeError)
             | Some (Secret_string encoded) \<Rightarrow>
                 (case w_b64decode world encoded of
                    None \<Rightarrow> (json_blacklist_add filename m1, Return None)
                  | Some secret \<Rightarrow>
                      (m1, Return (Some \<lparr>i_id = f_id data, i_host = f_host data,
                                          i_port = f_port data, i_secret = secret,
                                          i_filename = filename\<rparr>)))))"

text \<open>
  The body of the loop in \<^verbatim>\<open>_auto_connect_to_workers\<close> for one yielded \<open>info\<close>; the
  boolean is \<^verbatim>\<open>any_errors\<close>. Missing \<^verbatim>\<open>id\<close>, \<^verbatim>\<open>host\<close> or \<^verbatim>\<open>port\<close> keys raise a
  \<^verbatim>\<open>KeyError\<close> that nothing catches, and so does whatever the constructor of
  \<^verbatim>\<open>RemoteWorker\<close> (through \<^verbatim>\<open>address_to_name\<close>) or \<^verbatim>\<open>connect\<close> let through.
\<close>

definition connect_info :: "manager \<Rightarrow> world \<Rightarrow> info \<Rightarrow> bool \<Rightarrow> manager \<times> bool outcome" where
  "connect_info m world data any_errors =
     (case i_id data of
        None \<Rightarrow> (m, Raise KeyError)
      | Some ident \<Rightarrow>
          if ident \<in> m_worker_blacklist m then (m, Return any_errors)
          else
            (case i_host data of
               None \<Rightarrow> (m, Raise KeyError)
             | Some host \<Rightarrow>
                 (case i_port data of
                    None \<Rightarrow> (m, Raise KeyError)
                  | Some port \<Rightarrow>
                      (case address_to_name (w_getnameinfo world) host port of
                         Inl e \<Rightarrow> (m, Raise e)
                       | Inr name \<Rightarrow>
                           let worker = RemoteWorker name ident host port (i_secret data) in
                           if map_of (m_workers m) ident \<noteq> None then (m, Return True)
                           else
                             let m1 = add_effect (Connect_attempt ident host port (i_secret data)) m in
                             (case remote_connect worker (w_connect world host port) of
                                (worker', Return True) \<Rightarrow>
                                  (add_effect (Unlink (i_filename data))
                                     (m1\<lparr>m_workers := AList.update ident (Remote worker') (m_workers m1)\<rparr>),
                                   Return any_errors)
                              | (worker', Return False) \<Rightarrow>
                                  (m1\<lparr>m_worker_blacklist := insert ident (m_worker_blacklist m1)\<rparr>,
                                   Return True)
                              | (worker', Raise e) \<Rightarrow> (m1, Raise e)
                              | (worker', Blocks) \<Rightarrow> (m1, Blocks))))))"

fun auto_connect_loop :: "manager \<Rightarrow> world \<Rightarrow> dirent list \<Rightarrow> bool \<Rightarrow> manager \<times> bool outcome" where
  "auto_connect_loop m world [] any_errors = (m, Return any_errors)"
| "auto_connect_loop m world (d # ds) any_errors =
     and_then (collect_workers_file m world d) (\<lambda>m1 yielded.
       case yielded of
         None \<Rightarrow> auto_connect_loop m1 world ds any_errors
       | Some data \<Rightarrow>
           and_then (connect_info m1 world data any_errors) (\<lambda>m2 any_errors'.
             auto_connect_loop m2 world ds any_errors'))"

definition auto_connect_to_workers :: "manager \<Rightarrow> world \<Rightarrow> manager \<times> bool outcome" where
  "auto_connect_to_workers m world =
     (if (case m_next_auto_connect m of None \<Rightarrow> False | Some t \<Rightarrow> t \<le> w_now world)
      then and_then (auto_connect_loop m world (if w_isdir world then w_listdir world else []) False)
             (\<lambda>m1 any_errors. (m1\<lparr>m_next_auto_connect := Some (w_now world + 15)\<rparr>,
                                 Return (\<not> any_errors)))
      else (m, Return True))"

definition check_started :: "manager \<Rightarrow> error option" where
  "check_started m =
     (case m_local m of None \<Rightarrow> Some (WorkerError ''Manager not started'') | Some _ \<Rightarrow> None)"

definition get_local :: "manager \<Rightarrow> local_worker option" where
  "get_local m =
     (case m_local m of
        None \<Rightarrow> None
      | Some ident \<Rightarrow> (case map_of (m_workers m) ident of Some (Local w) \<Rightarrow> Some w | _ \<Rightarrow> None))"

definition put_worker :: "worker \<Rightarrow> manager \<Rightarrow> manager" where
  "put_worker w m = m\<lparr>m_workers := AList.update (worker_id w) w (m_workers m)\<rparr>"

definition manager_start :: "manager \<Rightarrow> world \<Rightarrow> manager \<times> bool outcome" where
  "manager_start m world =
     (if m_local m \<noteq> None then (m, Raise (WorkerError ''Manager already started''))
      else case local_connect (LocalWorker (w_uuid world) (m_threads m)) (w_requirements_ok world) of
        (local_worker, Return True) \<Rightarrow>
          auto_connect_to_workers
            (put_worker (Local local_worker) (m\<lparr>m_local := Some (lw_id local_worker)\<rparr>)) world
      | (local_worker, Return False) \<Rightarrow> (m, Return False)
      | (local_worker, Raise e) \<Rightarrow> (m, Raise e)
      | (local_worker, Blocks) \<Rightarrow> (m, Blocks))"

text \<open>
  \<^verbatim>\<open>Manager.start_task\<close>; \<open>sentinel\<close> is the handle of the child a local worker would
  spawn, \<open>send_ok\<close> whether writing to a remote worker's connection succeeds.
\<close>

definition manager_start_task :: "manager \<Rightarrow> string \<Rightarrow> node \<Rightarrow> handle \<Rightarrow> bool \<Rightarrow> manager \<times> bool outcome" where
  "manager_start_task m worker_ident task sentinel send_ok =
     (case check_started m of
        Some e \<Rightarrow> (m, Raise e)
      | None \<Rightarrow>
          (case map_of (m_workers m) worker_ident of
             None \<Rightarrow> (m, Return False)
           | Some (Local w) \<Rightarrow>
               (case local_start_task w task sentinel of
                  (w', result) \<Rightarrow> (put_worker (Local w') m, result))
           | Some (Remote w) \<Rightarrow>
               (case remote_start_task w task (m_temp_root m) send_ok of
                  (w', result) \<Rightarrow> (put_worker (Remote w') m, result))))"

definition handle_threads_event :: "manager \<Rightarrow> int \<Rightarrow> int \<Rightarrow> manager \<times> unit outcome" where
  "handle_threads_event m cpu_count change =
     (case get_local m of
        None \<Rightarrow> (m, Raise AssertionError)
      | Some w \<Rightarrow>
          let threads = min cpu_count (max 0 (m_threads m + change)) in
          if threads \<noteq> m_threads m
          then (put_worker (Local (w\<lparr>lw_threads := threads\<rparr>)) (m\<lparr>m_threads := threads\<rparr>), Return ())
          else (m, Return ()))"

fun handle_keyboard_input :: "manager \<Rightarrow> int \<Rightarrow> key_event list \<Rightarrow> manager \<times> unit outcome" where
  "handle_keyboard_input m cpu_count [] = (m, Return ())"
| "handle_keyboard_input m cpu_count (ThreadsEvent change # keys) =
     and_then (handle_threads_event m cpu_count change) (\<lambda>m1 _. handle_keyboard_input m1 cpu_count keys)"
| "handle_keyboard_input m cpu_count (ListTasksEvent # keys) = handle_keyboard_input m cpu_count keys"

text \<open>
  While \<^verbatim>\<open>wait\<close> sleeps the children of the local worker put their messages and exit;
  \<^verbatim>\<open>wait\<close> then reports handles out of those it was given.
\<close>

definition child_activity :: "world \<Rightarrow> local_worker \<Rightarrow> local_worker" where
  "child_activity world w =
     w\<lparr>lw_queue := lw_queue w @ w_puts world,
       lw_handles := map (\<lambda>(h, p, task).
          (h, (case map_of (w_exits world) h of None \<Rightarrow> p | Some code \<Rightarrow> p\<lparr>exitcode := Some code\<rparr>), task))
          (lw_handles w)\<rparr>"

definition waited_on :: "manager \<Rightarrow> ready \<Rightarrow> bool" where
  "waited_on m r =
     (case r of
        Ready_keyboard _ \<Rightarrow> True
      | Ready_local h \<Rightarrow>
          (case get_local m of None \<Rightarrow> False | Some w \<Rightarrow> map_of (lw_handles w) h \<noteq> None)
      | Ready_remote ident _ \<Rightarrow>
          (case map_of (m_workers m) ident of Some (Remote _) \<Rightarrow> True | _ \<Rightarrow> False))"

definition tagged :: "string \<Rightarrow> event list outcome \<Rightarrow> (string \<times> event) list outcome" where
  "tagged ident out =
     (case out of Return evs \<Rightarrow> Return (map (Pair ident) evs) | Raise e \<Rightarrow> Raise e | Blocks \<Rightarrow> Blocks)"

definition collect_handle :: "world \<Rightarrow> manager \<Rightarrow> ready \<Rightarrow> manager \<times> (string \<times> event) list outcome" where
  "collect_handle world m r =
     (case r of
        Ready_keyboard keys \<Rightarrow>
          and_then (handle_keyboard_input m (w_cpu_count world) keys) (\<lambda>m1 _. (m1, Return []))
      | Ready_local h \<Rightarrow>
          (case get_local m of
             None \<Rightarrow> (m, Return [])
           | Some w \<Rightarrow>
               (case local_get w h of (w', out) \<Rightarrow> (put_worker (Local w') m, tagged (lw_id w) out)))
      | Ready_remote ident incoming \<Rightarrow>
          (case map_of (m_workers m) ident of
             Some (Remote w) \<Rightarrow>
               (case remote_get w incoming of (w', out) \<Rightarrow> (put_worker (Remote w') m, tagged (rw_id w) out))
           | _ \<Rightarrow> (m, Return [])))"

fun collect_handles :: "world \<Rightarrow> manager \<Rightarrow> ready list \<Rightarrow> manager \<times> (string \<times> event) list outcome" where
  "collect_handles world m [] = (m, Return [])"
| "collect_handles world m (r # rs) =
     and_then (collect_handle world m r) (\<lambda>m1 evs.
       and_then (collect_handles world m1 rs) (\<lambda>m2 evs'. (m2, Return (evs @ evs'))))"

definition collect_events :: "manager \<Rightarrow> world \<Rightarrow> manager \<times> (string \<times> event) list outcome" where
  "collect_events m world =
     (case get_local m of
        None \<Rightarrow> collect_handles world m (filter (waited_on m) (w_ready world))
      | Some w \<Rightarrow>
          let events = map (Pair (lw_id w)) (lw_events w);
              m1 = put_worker (Local (child_activity world (w\<lparr>lw_events := []\<rparr>))) m
          in and_then (collect_handles world m1 (filter (waited_on m1) (w_ready world)))
               (\<lambda>m2 evs. (m2, Return (events @ evs))))"

text \<open>
  The loop of \<^verbatim>\<open>Manager.poll\<close> over the collected events. A handshake response is never
  yielded: the \<^verbatim>\<open>continue\<close> stands after the test of its error, not inside it. Every
  collected event is a dictionary with an \<^verbatim>\<open>"event"\<close> key (the workers build them so), so
  the branch for malformed events is never taken.
\<close>

fun poll_events :: "manager \<Rightarrow> (string \<times> event) list \<Rightarrow> manager \<times> (string \<times> event) list outcome" where
  "poll_events m [] = (m, Return [])"
| "poll_events m ((ident, EVT_HANDSHAKE_RESPONSE err) # rest) =
     (case err of
        None \<Rightarrow> poll_events m rest
      | Some _ \<Rightarrow>
          let m1 = m\<lparr>m_worker_blacklist := insert ident (m_worker_blacklist m)\<rparr> in
          (case dict_pop (m_workers m1) ident of
             None \<Rightarrow> (m1, Raise KeyError)
           | Some (_, workers') \<Rightarrow> poll_events (m1\<lparr>m_workers := workers'\<rparr>) rest))"
| "poll_events m ((ident, EVT_SHUTDOWN) # rest) =
     (case dict_pop (m_workers m) ident of
        None \<Rightarrow> (m, Raise KeyError)
      | Some (_, workers') \<Rightarrow>
          and_then (poll_events (m\<lparr>m_workers := workers'\<rparr>) rest)
            (\<lambda>m1 evs. (m1, Return ((ident, EVT_SHUTDOWN) # evs))))"
| "poll_events m ((ident, ev) # rest) =
     and_then (poll_events m rest) (\<lambda>m1 evs. (m1, Return ((ident, ev) # evs)))"

text \<open>
  \<^verbatim>\<open>Manager.poll\<close>, the generator run to its end by a consumer that does not call the
  manager in between: the events it yields, in order, and the manager it leaves. The check
  that the manager was started runs when the consumer asks for the first event.
\<close>

definition manager_poll :: "manager \<Rightarrow> world \<Rightarrow> manager \<times> (string \<times> event) list outcome" where
  "manager_poll m world =
     (case check_started m of
        Some e \<Rightarrow> (m, Raise e)
      | None \<Rightarrow>
          and_then (auto_connect_to_workers m world) (\<lambda>m1 _.
            and_then (collect_events m1 world) (\<lambda>m2 events.
              and_then (poll_events m2 events) (\<lambda>m3 yielded.
                (m3, Return (yielded @ capacity_events (m_workers m3)))))))"

text \<open>
  \<^verbatim>\<open>Manager.wait_for_workers\<close>. Each turn of its loop consumes one \<open>world\<close>; the result is
  \<open>None\<close> when the given worlds run out before the loop ends.
\<close>

definition all_running :: "manager \<Rightarrow> bool" where
  "all_running m = list_all (\<lambda>w. worker_status w = RUNNING) (dict_values (m_workers m))"

fun handshake_failed :: "string \<times> event \<Rightarrow> bool" where
  "handshake_failed (_, EVT_HANDSHAKE_RESPONSE (Some _)) = True"
| "handshake_failed _ = False"

fun wait_loop :: "manager \<Rightarrow> world list \<Rightarrow> (manager \<times> bool outcome) option" where
  "wait_loop m [] = (if all_running m then Some (m, Return True) else None)"
| "wait_loop m (world # worlds) =
     (if all_running m then Some (m, Return True)
      else case manager_poll m world of
        (m1, Return events) \<Rightarrow>
          if list_ex handshake_failed events then Some (m1, Return False)
          else wait_loop m1 worlds
      | (m1, Raise e) \<Rightarrow> Some (m1, Raise e)
      | (m1, Blocks) \<Rightarrow> Some (m1, Blocks))"

definition wait_for_workers :: "manager \<Rightarrow> world list \<Rightarrow> (manager \<times> bool outcome) option" where
  "wait_for_workers m worlds =
     (case check_started m of
        Some e \<Rightarrow> Some (m, Raise e)
      | None \<Rightarrow> wait_loop m worlds)"

text \<open>
  The synthesized events as the specification words them, without reference to how the
  source computes them: a worker is a largest worker when no worker of the map has a greater
  capacity; its idle-thread count is its capacity minus the sum of the threads of its running
  tasks; and there is one \<^verbatim>\<open>CAPACITY\<close> event for each worker whose idle-thread count is
  positive, carrying that count, flagged overcommit when the worker is a largest worker and
  its entire capacity is idle.
\<close>

definition largest :: "worker list \<Rightarrow> worker \<Rightarrow> bool" where
  "largest ws w = list_all (\<lambda>v. worker_threads v \<le> worker_threads w) ws"

definition idle_count :: "worker \<Rightarrow> int" where
  "idle_count w = worker_threads w - (\<Sum>task\<leftarrow>worker_tasks w. int (node_threads task))"

definition synthesized :: "(string \<times> worker) list \<Rightarrow> (string \<times> event) list" where
  "synthesized workers =
     map (\<lambda>w. (worker_id w,
                EVT_CAPACITY (idle_count w)
                  (largest (dict_values workers) w \<and> idle_count w = worker_threads w)))
       (filter (\<lambda>w. 0 < idle_count w) (dict_values workers))"

text \<open>The two messages of the manager's own \<^verbatim>\<open>WorkerError\<close>s.\<close>

definition not_started :: error where
  "not_started = WorkerError ''Manager not started''"

definition already_started :: error where
  "already_started = WorkerError ''Manager already started''"



text \<open>
  The events that the local worker holds for the next \<^verbatim>\<open>poll\<close> (its \<^verbatim>\<open>events\<close> list; the
  source only ever appends handshake responses to it), and the test for a \<^verbatim>\<open>CAPACITY\<close>
  event.
\<close>

fun is_capacity :: "event \<Rightarrow> bool" where
  "is_capacity (EVT_CAPACITY _ _) = True"
| "is_capacity _ = False"

definition pending_local_events :: "manager \<Rightarrow> event list" where
  "pending_local_events m = (case get_local m of None \<Rightarrow> [] | Some w \<Rightarrow> lw_events w)"

section \<open>Outdated nodes\<close>

text \<open>
  Modelled from the spec: \<^verbatim>\<open>NodeGraph._is_outdated\<close>, the state derivation and
  \<^verbatim>\<open>FileStatusCache\<close> live in the module \<^verbatim>\<open>nodegraph\<close>, which is not among the sources
  (only its test is). The cache maps a path to \<^verbatim>\<open>(exists, mtime)\<close>; a node is outdated
  when every declared output file exists and some input file's mtime exceeds the minimum
  mtime of the output files, and a missing input does not mark a node outdated.
\<close>

record file_status =
  file_exists :: bool
  mtime :: real

type_synonym FileStatusCache = "string \<Rightarrow> file_status"

record graph_node =
  input_files :: "string list"
  output_files :: "string list"

definition min_mtime :: "FileStatusCache \<Rightarrow> string list \<Rightarrow> real option" where
  "min_mtime cache files =
     (case files of [] \<Rightarrow> None | f # fs \<Rightarrow> Some (fold min (map (\<lambda>g. mtime (cache g)) fs) (mtime (cache f))))"

definition files_exist :: "FileStatusCache \<Rightarrow> string list \<Rightarrow> bool" where
  "files_exist cache files = list_all (\<lambda>f. file_exists (cache f)) files"

definition is_outdated :: "graph_node \<Rightarrow> FileStatusCache \<Rightarrow> bool" where
  "is_outdated node cache =
     (files_exist cache (output_files node) \<and>
      (case min_mtime cache (output_files node) of
         None \<Rightarrow> False
       | Some oldest \<Rightarrow>
           list_ex (\<lambda>f. file_exists (cache f) \<and> oldest < mtime (cache f)) (input_files node)))"

datatype node_state = DONE | OUTDATED | RUNABLE | QUEUED | NODE_RUNNING | ERROR

text \<open>
  The state of a node once the states of its subnodes and dependencies are known, following
  the predicates of the specification.
\<close>

definition derive_state :: "graph_node \<Rightarrow> FileStatusCache \<Rightarrow> node_state list \<Rightarrow> node_state" where
  "derive_state node cache deps =
     (if list_ex (\<lambda>s. s = ERROR) deps then ERROR
      else if list_ex (\<lambda>s. s \<noteq> DONE) deps then QUEUED
      else if files_exist cache (output_files node) \<and> is_outdated node cache then OUTDATED
      else if files_exist cache (output_files node) then DONE
      else RUNABLE)"

section \<open>Command sets\<close>

text \<open>
  Modelled from the spec: \<^verbatim>\<open>AtomicCmd\<close>, \<^verbatim>\<open>ParallelCmds\<close> and \<^verbatim>\<open>SequentialCmds\<close> live in
  the module \<^verbatim>\<open>paleomix.common.command\<close>, which is not among the sources (only
  \<^verbatim>\<open>sets_test.py\<close> is). A return code is an exit code, the name of a signal, or \<^verbatim>\<open>None\<close>
  for a command that never ran. A member of a sequential set is described by the return
  codes it reports once it ran (one for an \<^verbatim>\<open>AtomicCmd\<close>, several for a nested set) and by
  whether it was started.
\<close>

datatype return_code = Exit int | Signal string | Not_run

definition truthy :: "return_code \<Rightarrow> bool" where
  "truthy rc = (case rc of Exit n \<Rightarrow> n \<noteq> 0 | Signal name \<Rightarrow> name \<noteq> [] | Not_run \<Rightarrow> False)"

record seq_member =
  codes :: "return_code list"
  started :: bool

datatype call = Run nat | Join nat

definition member_join :: "seq_member \<Rightarrow> return_code list" where
  "member_join c = (if started c then codes c else replicate (length (codes c)) Not_run)"

text \<open>
  \<^verbatim>\<open>SequentialCmds.run\<close>: "starts the first member, joins it, and only on zero exit proceeds
  to the next". The result is the members as the run leaves them and the calls made on them,
  members counted from \<open>i\<close>.
\<close>

fun sequential_run_from :: "nat \<Rightarrow> seq_member list \<Rightarrow> seq_member list \<times> call list" where
  "sequential_run_from i [] = ([], [])"
| "sequential_run_from i (c # cs) =
     (let c' = c\<lparr>started := True\<rparr> in
      if list_ex truthy (member_join c') then (c' # cs, [Run i, Join i])
      else (case sequential_run_from (Suc i) cs of
              (cs', calls) \<Rightarrow> (c' # cs', Run i # Join i # calls)))"

definition sequential_run :: "seq_member list \<Rightarrow> seq_member list \<times> call list" where
  "sequential_run cmds = sequential_run_from 0 cmds"

definition sequential_join :: "seq_member list \<Rightarrow> return_code list" where
  "sequential_join cmds = concat (map member_join cmds)"

text \<open>
  The specification's wording: the members that ran are the leading members up to and
  including the first one with a non-zero exit.
\<close>

definition ran :: "seq_member list \<Rightarrow> nat" where
  "ran cmds = min (Suc (length (takeWhile (\<lambda>c. \<not> list_ex truthy (codes c)) cmds))) (length cmds)"

text \<open>
  Modelled from the spec: \<^verbatim>\<open>ParallelCmds\<close> (module \<^verbatim>\<open>paleomix.common.command\<close>, not among
  the sources). "\<^verbatim>\<open>run(T)\<close> starts every member; \<^verbatim>\<open>join()\<close> returns the per-member exit
  code (or \<^verbatim>\<open>None\<close> for not-yet-started, or the signal name for a terminated member). On
  first non-zero exit of any member, every still-running member is signaled TERM." A member
  is described by what it does when left alone: the time after its start at which it exits
  and the code it then exits with; and by whether it was started. The members are started
  together, so the first non-zero exit is the least exit time of a started member with a
  non-zero code, and a member is still running then when its own exit time is later.
\<close>

record par_member =
  exit_time :: nat
  exit_code :: int
  par_started :: bool

definition parallel_run :: "par_member list \<Rightarrow> par_member list" where
  "parallel_run cmds = map (\<lambda>c. c\<lparr>par_started := True\<rparr>) cmds"

definition failures :: "par_member list \<Rightarrow> par_member list" where
  "failures cmds = filter (\<lambda>c. par_started c \<and> exit_code c \<noteq> 0) cmds"

definition first_failure :: "par_member list \<Rightarrow> nat option" where
  "first_failure cmds =
     (case failures cmds of
        [] \<Rightarrow> None
      | c # cs \<Rightarrow> Some (fold min (map exit_time cs) (exit_time c)))"

definition par_member_join :: "nat option \<Rightarrow> par_member \<Rightarrow> return_code" where
  "par_member_join failed c =
     (if \<not> par_started c then Not_run
      else case failed of
             None \<Rightarrow> Exit (exit_code c)
           | Some t \<Rightarrow> if t < exit_time c then Signal ''SIGTERM'' else Exit (exit_code c))"

definition parallel_join :: "par_member list \<Rightarrow> return_code list" where
  "parallel_join cmds = map (par_member_join (first_failure cmds)) cmds"

text \<open>
  Modelled from the spec: \<^verbatim>\<open>commit\<close> of \<^verbatim>\<open>AtomicCmd\<close> and of the command sets (module
  \<^verbatim>\<open>paleomix.common.command\<close>, not among the sources). The file system is the set of
  existing paths. An \<^verbatim>\<open>AtomicCmd\<close> declares outputs as pairs of the staged path under the
  temporary directory and the final destination; its commit raises \<^verbatim>\<open>CmdError\<close> when a
  declared output was not produced, and otherwise moves every staged file to its
  destination. \<open>commit_error\<close> is an error that the commit raises before it moves anything
  (the mocked \<^verbatim>\<open>OSError\<close> of the tests). A set commits its members in declaration order
  and stops at the first member whose commit raises. What then happens to the outputs
  already committed is taken from the test
  \<^verbatim>\<open>test_atomicsets__commit__remove_files_on_failure\<close>, which the sources do contain: it
  finds the destination directory empty, so the committed files are removed again.
\<close>

record atomic_cmd =
  cmd_outputs :: "(string \<times> string) list"
  commit_error :: "error option"

definition atomic_commit :: "string set \<Rightarrow> atomic_cmd \<Rightarrow> string set \<times> error option" where
  "atomic_commit files c =
     (case commit_error c of
        Some e \<Rightarrow> (files, Some e)
      | None \<Rightarrow>
          if list_ex (\<lambda>(staged, dest). staged \<notin> files) (cmd_outputs c)
          then (files, Some (CmdError ''Expected temp files not created''))
          else (fold (\<lambda>(staged, dest) fs. insert dest (fs - {staged})) (cmd_outputs c) files, None))"

definition destinations :: "atomic_cmd list \<Rightarrow> string list" where
  "destinations cmds = concat (map (\<lambda>c. map snd (cmd_outputs c)) cmds)"

text \<open>
  The result is the file system, the number of members whose \<^verbatim>\<open>commit\<close> was called, and
  the error that propagates, if any.
\<close>

fun commit_from :: "string set \<Rightarrow> atomic_cmd list \<Rightarrow> string list \<Rightarrow> string set \<times> nat \<times> error option" where
  "commit_from files [] committed = (files, 0, None)"
| "commit_from files (c # cs) committed =
     (case atomic_commit files c of
        (files', Some e) \<Rightarrow> (files' - set committed, 1, Some e)
      | (files', None) \<Rightarrow>
          (case commit_from files' cs (committed @ map snd (cmd_outputs c)) of
             (files'', called, err) \<Rightarrow> (files'', Suc called, err)))"

definition cmdset_commit :: "string set \<Rightarrow> atomic_cmd list \<Rightarrow> string set \<times> nat \<times> error option" where
  "cmdset_commit files cmds = commit_from files cmds []"

section \<open>Concrete managers, workers and worlds\<close>

definition task7 :: node where
  "task7 = \<lparr>node_id = 7, node_threads = 1\<rparr>"

definition task8 :: node where
  "task8 = \<lparr>node_id = 8, node_threads = 2\<rparr>"

text \<open>A running local worker with four threads and two running children.\<close>

definition busy_local :: local_worker where
  "busy_local =
     \<lparr>lw_id = ''local'', lw_queue = [],
      lw_handles = [(3, \<lparr>exitcode = None\<rparr>, task7), (4, \<lparr>exitcode = None\<rparr>, task8)],
      lw_running = [(7, task7), (8, task8)],
      lw_status = RUNNING, lw_threads = 4, lw_events = []\<rparr>"

text \<open>An idle local worker, and a remote worker whose handshake is still unanswered.\<close>

definition idle_local :: local_worker where
  "idle_local =
     \<lparr>lw_id = ''local'', lw_queue = [], lw_handles = [], lw_running = [],
      lw_status = RUNNING, lw_threads = 2, lw_events = []\<rparr>"

definition connecting_remote :: remote_worker where
  "connecting_remote =
     \<lparr>rw_id = ''w1'', rw_closed = False, rw_status = CONNECTING, rw_host = ''h'',
      rw_port = 9, rw_secret = ''secret'', rw_running = [], rw_threads = 0,
      rw_name = ''h:9'', rw_sent = [S_HANDSHAKE]\<rparr>"

definition busy_manager :: manager where
  "busy_manager =
     \<lparr>m_local = Some ''local'', m_workers = [(''local'', Local busy_local)],
      m_json_blacklist = {}, m_worker_blacklist = {}, m_threads = 4, m_temp_root = ''/tmp'',
      m_next_auto_connect = None, m_effects = []\<rparr>"

definition waiting_manager :: manager where
  "waiting_manager =
     \<lparr>m_local = Some ''local'',
      m_workers = [(''local'', Local idle_local), (''w1'', Remote connecting_remote)],
      m_json_blacklist = {}, m_worker_blacklist = {}, m_threads = 2, m_temp_root = ''/tmp'',
      m_next_auto_connect = None, m_effects = []\<rparr>"

text \<open>A world in which nothing happens, and one in which worker \<open>w1\<close> refuses the handshake.\<close>

definition quiet_world :: world where
  "quiet_world =
     \<lparr>w_now = 2, w_isdir = False, w_listdir = [],
      w_b64decode = (\<lambda>s. if s = ''c2VjcmV0'' then Some ''secret'' else None),
      w_connect = (\<lambda>host port. None),
      w_getnameinfo = (\<lambda>host port. Inl (OSError ''Name or service not known'')),
      w_uuid = ''local'', w_requirements_ok = True, w_cpu_count = 8,
      w_puts = [], w_exits = [], w_ready = []\<rparr>"

definition refusing_world :: world where
  "refusing_world =
     quiet_world\<lparr>w_ready := [Ready_remote ''w1'' [Recv (W_HANDSHAKE_RESPONSE (Some ''version mismatch''))]]\<rparr>"

text \<open>The busy local worker once child 3 was killed, and once both children finished.\<close>

definition crashed_local :: local_worker where
  "crashed_local = busy_local\<lparr>lw_handles := [(3, \<lparr>exitcode = Some (- 15)\<rparr>, task7), (4, \<lparr>exitcode = None\<rparr>, task8)]\<rparr>"

definition finished_local :: local_worker where
  "finished_local = busy_local\<lparr>lw_handles := [(3, \<lparr>exitcode = Some 0\<rparr>, task7), (4, \<lparr>exitcode = Some 0\<rparr>, task8)],
      lw_queue := [(8, None, None), (7, Some (OtherError ''boom''), Some [''frame''])]\<rparr>"

text \<open>
  A discovery directory with one well-formed file, once with the worker unreachable and once
  reachable; a manager that was never started, and the managers that \<^verbatim>\<open>start\<close> leaves in
  these two worlds.
\<close>

definition w1_file :: dirent where
  "w1_file = \<lparr>d_filename = ''/remote/w1.json'', d_isfile = True,
     d_content = Object \<lparr>f_id = Some ''w1'', f_host = Some ''h'', f_port = Some 9,
                         f_secret = Some (Secret_string ''c2VjcmV0'')\<rparr>\<rparr>"

definition unreachable_world :: world where
  "unreachable_world =
     quiet_world\<lparr>w_isdir := True, w_listdir := [w1_file],
                 w_connect := (\<lambda>host port. Some (OSError ''Connection refused''))\<rparr>"

definition reachable_world :: world where
  "reachable_world = quiet_world\<lparr>w_isdir := True, w_listdir := [w1_file]\<rparr>"


definition fresh_manager :: manager where
  "fresh_manager = Manager 2 ''/tmp'' True"

definition started_manager :: manager where
  "started_manager =
     \<lparr>m_local = Some ''local'',
      m_workers = [(''local'', Local (idle_local\<lparr>lw_events := [EVT_HANDSHAKE_RESPONSE None]\<rparr>)),
                   (''w1'', Remote connecting_remote)],
      m_json_blacklist = {}, m_worker_blacklist = {}, m_threads = 2, m_temp_root = ''/tmp'',
      m_next_auto_connect = Some 17,
      m_effects = [Read_file ''/remote/w1.json'', Connect_attempt ''w1'' ''h'' 9 ''secret'',
                   Unlink ''/remote/w1.json'']\<rparr>"

definition half_started_manager :: manager where
  "half_started_manager =
     \<lparr>m_local = Some ''local'',
      m_workers = [(''local'', Local (idle_local\<lparr>lw_events := [EVT_HANDSHAKE_RESPONSE None]\<rparr>))],
      m_json_blacklist = {}, m_worker_blacklist = {''w1''}, m_threads = 2, m_temp_root = ''/tmp'',
      m_next_auto_connect = Some 17,
      m_effects = [Read_file ''/remote/w1.json'', Connect_attempt ''w1'' ''h'' 9 ''secret'']\<rparr>"

text \<open>The waiting manager after worker \<open>w1\<close> refused the handshake.\<close>

definition refused_manager :: manager where
  "refused_manager =
     waiting_manager\<lparr>m_workers := [(''local'', Local idle_local)], m_worker_blacklist := {''w1''}\<rparr>"


text \<open>
  The files of the node graph's tests, the older one with the smaller mtime; and an
  \<^verbatim>\<open>AtomicCmd\<close> that exits with the given code, not yet started.
\<close>

definition timestamps :: FileStatusCache where
  "timestamps path =
     (if path = ''timestamp_a_older'' then \<lparr>file_exists = True, mtime = 1\<rparr>
      else if path = ''timestamp_a_younger'' then \<lparr>file_exists = True, mtime = 2\<rparr>
      else \<lparr>file_exists = False, mtime = 0\<rparr>)"

definition atomic :: "int \<Rightarrow> seq_member" where
  "atomic code = \<lparr>codes = [Exit code], started = False\<rparr>"

text \<open>
  The commands of \<^verbatim>\<open>test_atomicsets__commit__remove_files_on_failure\<close>: the commit of the
  second is mocked to raise; and a third command behind them.
\<close>

definition cmd_1 :: atomic_cmd where
  "cmd_1 = \<lparr>cmd_outputs = [(''tmp/file1'', ''out/file1'')], commit_error = None\<rparr>"

definition cmd_2 :: atomic_cmd where
  "cmd_2 = \<lparr>cmd_outputs = [(''tmp/file2'', ''out/file2'')],
            commit_error = Some (OSError ''mocked failure'')\<rparr>"

definition cmd_3 :: atomic_cmd where
  "cmd_3 = \<lparr>cmd_outputs = [(''tmp/file3'', ''out/file3'')], commit_error = None\<rparr>"

definition staged_files :: "string set" where
  "staged_files = {''tmp/file1'', ''tmp/file2'', ''tmp/file3''}"

text \<open>
  Three workers at once: the busy local worker (capacity 4), an idle remote worker of the
  same capacity, and a remote worker whose only thread is taken; and a world in which child
  3 of the local worker puts its message and exits with code 0.
\<close>

definition task9 :: node where
  "task9 = \<lparr>node_id = 9, node_threads = 1\<rparr>"

definition running_remote :: remote_worker where
  "running_remote =
     \<lparr>rw_id = ''w2'', rw_closed = False, rw_status = RUNNING, rw_host = ''h2'',
      rw_port = 9, rw_secret = ''secret'', rw_running = [], rw_threads = 4,
      rw_name = ''h2:9'', rw_sent = [S_HANDSHAKE]\<rparr>"

definition full_remote :: remote_worker where
  "full_remote =
     \<lparr>rw_id = ''w3'', rw_closed = False, rw_status = RUNNING, rw_host = ''h3'',
      rw_port = 9, rw_secret = ''secret'', rw_running = [(9, task9)], rw_threads = 1,
      rw_name = ''h3:9'', rw_sent = [S_HANDSHAKE, S_TASK_START task9 ''/tmp'']\<rparr>"

definition small_remote :: remote_worker where
  "small_remote =
     \<lparr>rw_id = ''w4'', rw_closed = False, rw_status = RUNNING, rw_host = ''h4'',
      rw_port = 9, rw_secret = ''secret'', rw_running = [], rw_threads = 2,
      rw_name = ''h4:9'', rw_sent = [S_HANDSHAKE]\<rparr>"

definition crowded_manager :: manager where
  "crowded_manager =
     \<lparr>m_local = Some ''local'',
      m_workers = [(''local'', Local busy_local), (''w2'', Remote running_remote),
                   (''w3'', Remote full_remote), (''w4'', Remote small_remote)],
      m_json_blacklist = {}, m_worker_blacklist = {}, m_threads = 4, m_temp_root = ''/tmp'',
      m_next_auto_connect = None, m_effects = []\<rparr>"

definition finishing_world :: world where
  "finishing_world =
     quiet_world\<lparr>w_puts := [(7, None, None)], w_exits := [(3, 0)], w_ready := [Ready_local 3]\<rparr>"


text \<open>
  The commands of the tests on parallel sets: \<^verbatim>\<open>false\<close> exits at once with code 1,
  \<^verbatim>\<open>sleep 10\<close> after ten seconds with code 0, \<^verbatim>\<open>true\<close> at once with code 0.
\<close>

definition false_cmd :: par_member where
  "false_cmd = \<lparr>exit_time = 0, exit_code = 1, par_started = False\<rparr>"

definition sleep_cmd :: par_member where
  "sleep_cmd = \<lparr>exit_time = 10, exit_code = 0, par_started = False\<rparr>"

definition true_cmd :: par_member where
  "true_cmd = \<lparr>exit_time = 0, exit_code = 0, par_started = False\<rparr>"

section \<open>The synthesized capacity events\<close>

lemma fold_max_ge_init: "(a::int) \<le> fold max xs a"
  by (induction xs arbitrary: a) (auto intro: order_trans[OF max.cobounded2])

lemma fold_max_ge_elem: "x \<in> set xs \<Longrightarrow> (x::int) \<le> fold max xs a"
proof (induction xs arbitrary: a)
  case Nil
  then show ?case by simp
next
  case (Cons y ys)
  show ?case
  proof (cases "x = y")
    case True
    have "y \<le> max y a" by simp
    also have "\<dots> \<le> fold max ys (max y a)" by (rule fold_max_ge_init)
    finally show ?thesis using True by simp
  next
    case False
    with Cons.prems have "x \<in> set ys" by simp
    then show ?thesis using Cons.IH by simp
  qed
qed

lemma worker_threads_le_max: "w \<in> set ws \<Longrightarrow> worker_threads w \<le> max_threads ws"
proof (cases ws)
  case Nil
  assume "w \<in> set ws"
  with Nil show ?thesis by simp
next
  case (Cons v rest)
  assume mem: "w \<in> set ws"
  show ?thesis
  proof (cases "w = v")
    case True
    then show ?thesis using Cons by (simp add: max_threads_def fold_max_ge_init)
  next
    case False
    with mem Cons have "worker_threads w \<in> set (map worker_threads rest)" by simp
    then show ?thesis using Cons by (simp add: max_threads_def fold_max_ge_elem del: set_map)
  qed
qed

lemma idle_threads_le: "idle_threads w \<le> worker_threads w"
  by (simp add: idle_threads_def)

lemma fold_max_mem: "fold max xs (a::int) \<in> set (a # xs)"
proof (induction xs arbitrary: a)
  case Nil
  show ?case by simp
next
  case (Cons y ys)
  have "fold max ys (max y a) \<in> set (max y a # ys)" by (rule Cons.IH)
  moreover have "max y a = y \<or> max y a = a" by (simp add: max_def)
  ultimately show ?case by auto
qed

lemma max_threads_mem: "ws \<noteq> [] \<Longrightarrow> \<exists>v \<in> set ws. worker_threads v = max_threads ws"
proof (cases ws)
  case Nil
  assume "ws \<noteq> []"
  with Nil show ?thesis by simp
next
  case (Cons v rest)
  have "fold max (map worker_threads rest) (worker_threads v)
          \<in> set (worker_threads v # map worker_threads rest)"
    by (rule fold_max_mem)
  then show ?thesis using Cons by (auto simp: max_threads_def)
qed

lemma idle_count_eq: "idle_count w = idle_threads w"
proof -
  have "(\<Sum>task\<leftarrow>ts. int (node_threads task)) = int (sum_list (map node_threads ts))" for ts :: "node list"
    by (induction ts) auto
  then show ?thesis by (simp add: idle_count_def idle_threads_def)
qed

lemma overcommit_iff:
  assumes "w \<in> set ws" and "0 < idle_threads w"
  shows "(max_threads ws \<noteq> 0 \<and> idle_threads w = max_threads ws) \<longleftrightarrow>
         (largest ws w \<and> idle_threads w = worker_threads w)"
proof
  assume l: "max_threads ws \<noteq> 0 \<and> idle_threads w = max_threads ws"
  with worker_threads_le_max[OF assms(1)] idle_threads_le[of w]
  have e: "worker_threads w = max_threads ws" by simp
  have "largest ws w"
    unfolding largest_def list_all_iff using worker_threads_le_max[of _ ws] e by simp
  with l e show "largest ws w \<and> idle_threads w = worker_threads w" by simp
next
  assume r: "largest ws w \<and> idle_threads w = worker_threads w"
  from assms(1) have "ws \<noteq> []" by auto
  from max_threads_mem[OF this] obtain v where "v \<in> set ws" and v: "worker_threads v = max_threads ws"
    by blast
  with r have "max_threads ws \<le> worker_threads w" by (auto simp: largest_def list_all_iff)
  with worker_threads_le_max[OF assms(1)] have "worker_threads w = max_threads ws" by simp
  with r assms(2) show "max_threads ws \<noteq> 0 \<and> idle_threads w = max_threads ws" by simp
qed

lemma concat_map_if:
  "concat (map (\<lambda>w. if P w then [f w] else []) xs) = map f (filter P xs)"
  by (induction xs) auto

lemma capacity_events_eq: "capacity_events workers = synthesized workers"
proof -
  let ?ws = "dict_values workers"
  let ?mx = "max_threads ?ws"
  have "capacity_events workers =
        map (\<lambda>w. (worker_id w, EVT_CAPACITY (idle_threads w) (?mx \<noteq> 0 \<and> idle_threads w = ?mx)))
          (filter (\<lambda>w. 0 < idle_threads w) ?ws)"
    unfolding capacity_events_def capacity_event_def by (rule concat_map_if)
  also have "\<dots> = synthesized workers"
    unfolding synthesized_def idle_count_eq
    by (rule map_cong[OF refl]) (simp add: overcommit_iff)
  finally show ?thesis .
qed

lemma and_then_fst:
  assumes "P (fst r)" and "\<And>s a. r = (s, Return a) \<Longrightarrow> P (fst (f s a))"
  shows "P (fst (and_then r f))"
proof (cases r)
  case (Pair s out)
  with assms show ?thesis by (cases out) (auto simp: and_then_def)
qed

lemma and_then_Return:
  "and_then r f = (s, Return x) \<Longrightarrow> \<exists>s1 a. r = (s1, Return a) \<and> f s1 a = (s, Return x)"
  by (cases r) (auto simp: and_then_def split: outcome.splits)

lemma poll_decompose:
  assumes "manager_poll m world = (m', Return events)"
  shows "\<exists>ok m1 m2 collected drained.
           auto_connect_to_workers m world = (m1, Return ok) \<and>
           collect_events m1 world = (m2, Return collected) \<and>
           poll_events m2 collected = (m', Return drained) \<and>
           events = drained @ capacity_events (m_workers m')"
proof -
  from assms have s0: "and_then (auto_connect_to_workers m world) (\<lambda>m1 _.
            and_then (collect_events m1 world) (\<lambda>m2 events.
              and_then (poll_events m2 events) (\<lambda>m3 yielded.
                (m3, Return (yielded @ capacity_events (m_workers m3)))))) = (m', Return events)"
    unfolding manager_poll_def by (simp split: option.splits)
  from and_then_Return[OF s0] obtain m1 r where
    a: "auto_connect_to_workers m world = (m1, Return r)" and
    s1: "and_then (collect_events m1 world) (\<lambda>m2 events.
              and_then (poll_events m2 events) (\<lambda>m3 yielded.
                (m3, Return (yielded @ capacity_events (m_workers m3))))) = (m', Return events)"
    by blast
  from and_then_Return[OF s1] obtain m2 collected where c: "collect_events m1 world = (m2, Return collected)"
    and s2: "and_then (poll_events m2 collected) (\<lambda>m3 yielded.
                (m3, Return (yielded @ capacity_events (m_workers m3)))) = (m', Return events)"
    by blast
  from and_then_Return[OF s2] obtain m3 drained where p: "poll_events m2 collected = (m3, Return drained)"
    and e: "(m3, Return (drained @ capacity_events (m_workers m3))) = (m', Return events)"
    by blast
  from e have "m3 = m'" "events = drained @ capacity_events (m_workers m')"
    by auto
  with a c p show ?thesis by blast
qed

lemma collect_workers_file_get_local: "get_local (fst (collect_workers_file m world d)) = get_local m"
proof -
  have "m_local (fst (collect_workers_file m world d)) = m_local m \<and>
        m_workers (fst (collect_workers_file m world d)) = m_workers m"
    by (simp add: collect_workers_file_def Let_def add_effect_def json_blacklist_add_def
        split: content.splits option.splits secret_value.splits)
  then show ?thesis by (simp add: get_local_def split: option.splits)
qed

lemma connect_info_get_local: "get_local (fst (connect_info m world data any)) = get_local m"
  by (auto simp: connect_info_def Let_def add_effect_def remote_connect_def RemoteWorker_def
      get_local_def update_conv' split: option.splits sum.splits worker.splits)

lemma auto_connect_loop_get_local: "get_local (fst (auto_connect_loop m world ds any)) = get_local m"
proof (induction ds arbitrary: m any)
  case Nil
  show ?case by simp
next
  case (Cons d ds)
  show ?case
    unfolding auto_connect_loop.simps
  proof (rule and_then_fst, goal_cases)
    case 1
    show ?case by (rule collect_workers_file_get_local)
  next
    case (2 s a)
    then have s: "get_local s = get_local m"
      using collect_workers_file_get_local[of m world d] by simp
    show ?case
    proof (cases a)
      case None
      then show ?thesis using Cons.IH[of s any] s by simp
    next
      case (Some data)
      have "get_local (fst (and_then (connect_info s world data any)
               (\<lambda>m2 any_errors'. auto_connect_loop m2 world ds any_errors'))) = get_local m"
      proof (rule and_then_fst, goal_cases)
        case 1
        show ?case using connect_info_get_local[of s world data any] s by simp
      next
        case (2 s' a')
        then have "get_local s' = get_local m"
          using connect_info_get_local[of s world data any] s by simp
        then show ?case using Cons.IH[of s' a'] by simp
      qed
      with Some show ?thesis by simp
    qed
  qed
qed

lemma get_local_next [simp]: "get_local (m\<lparr>m_next_auto_connect := t\<rparr>) = get_local m"
  by (simp add: get_local_def split: option.splits)

lemma auto_connect_get_local: "get_local (fst (auto_connect_to_workers m world)) = get_local m"
proof (cases "case m_next_auto_connect m of None \<Rightarrow> False | Some t \<Rightarrow> t \<le> w_now world")
  case True
  have "get_local (fst (and_then (auto_connect_loop m world (if w_isdir world then w_listdir world else []) False)
             (\<lambda>m1 any_errors. (m1\<lparr>m_next_auto_connect := Some (w_now world + 15)\<rparr>,
                                 Return (\<not> any_errors))))) = get_local m"
  proof (rule and_then_fst, goal_cases)
    case 1
    show ?case by (rule auto_connect_loop_get_local)
  next
    case (2 s a)
    then show ?case
      using auto_connect_loop_get_local[of m world "if w_isdir world then w_listdir world else []" False]
      by simp
  qed
  with True show ?thesis by (simp add: auto_connect_to_workers_def)
next
  case False
  then show ?thesis by (simp add: auto_connect_to_workers_def)
qed

lemma local_get_no_capacity:
  "local_get w h = (w', Return evs) \<Longrightarrow> list_all (\<lambda>e. \<not> is_capacity e) evs"
  by (auto simp: local_get_def Let_def split: if_splits option.splits prod.splits list.splits)

lemma remote_handle_no_capacity:
  "remote_handle w msg = (w', Return evs) \<Longrightarrow> list_all (\<lambda>e. \<not> is_capacity e) evs"
  by (cases msg) (auto split: if_splits option.splits prod.splits)

lemma remote_get_loop_no_capacity:
  "remote_get_loop w xs = (w', Return evs) \<Longrightarrow> list_all (\<lambda>e. \<not> is_capacity e) evs"
proof (induction xs arbitrary: w w' evs)
  case Nil
  then show ?case by simp
next
  case (Cons x xs)
  show ?case
  proof (cases "rw_closed w")
    case True
    with Cons.prems show ?thesis by simp
  next
    case False
    show ?thesis
    proof (cases x)
      case Broken
      with False Cons.prems show ?thesis by (auto split: if_splits)
    next
      case (Recv msg)
      with False Cons.prems have
        "and_then (remote_handle w msg) (\<lambda>w1 evs.
            and_then (remote_get_loop w1 xs) (\<lambda>w2 evs'. (w2, Return (evs @ evs')))) = (w', Return evs)"
        by simp
      from and_then_Return[OF this] obtain w1 e1 where h: "remote_handle w msg = (w1, Return e1)"
        and r: "and_then (remote_get_loop w1 xs) (\<lambda>w2 evs'. (w2, Return (e1 @ evs'))) = (w', Return evs)"
        by blast
      from and_then_Return[OF r] obtain w2 e2 where l: "remote_get_loop w1 xs = (w2, Return e2)"
        and e: "evs = e1 @ e2"
        by auto
      from remote_handle_no_capacity[OF h] Cons.IH[OF l] e show ?thesis by simp
    qed
  qed
qed

lemma remote_get_no_capacity:
  "remote_get w xs = (w', Return evs) \<Longrightarrow> list_all (\<lambda>e. \<not> is_capacity e) evs"
  by (auto simp: remote_get_def split: option.splits dest: remote_get_loop_no_capacity)

lemma tagged_Return:
  "tagged ident out = Return evs \<Longrightarrow> \<exists>es. out = Return es \<and> evs = map (Pair ident) es"
  by (cases out) (auto simp: tagged_def)

lemma collect_handle_no_capacity:
  assumes "collect_handle world m r = (m', Return evs)"
  shows "list_all (\<lambda>e. \<not> is_capacity (snd e)) evs"
proof (cases r)
  case (Ready_keyboard keys)
  with assms have "and_then (handle_keyboard_input m (w_cpu_count world) keys) (\<lambda>m1 _. (m1, Return []))
                   = (m', Return evs)"
    by (simp add: collect_handle_def)
  from and_then_Return[OF this] show ?thesis by auto
next
  case (Ready_local h)
  show ?thesis
  proof (cases "get_local m")
    case None
    with Ready_local assms show ?thesis by (simp add: collect_handle_def)
  next
    case (Some w)
    obtain w' out where g: "local_get w h = (w', out)" by (cases "local_get w h")
    with Ready_local Some assms have "tagged (lw_id w) out = Return evs"
      by (simp add: collect_handle_def)
    from tagged_Return[OF this] obtain es where "out = Return es" and e: "evs = map (Pair (lw_id w)) es"
      by blast
    with g have "list_all (\<lambda>e. \<not> is_capacity e) es" by (auto dest: local_get_no_capacity)
    with e show ?thesis by (simp add: list_all_iff)
  qed
next
  case (Ready_remote ident incoming)
  show ?thesis
  proof (cases "map_of (m_workers m) ident")
    case None
    with Ready_remote assms show ?thesis by (simp add: collect_handle_def)
  next
    case (Some wk)
    show ?thesis
    proof (cases wk)
      case (Local lw)
      with Some Ready_remote assms show ?thesis by (simp add: collect_handle_def)
    next
      case (Remote w)
      obtain w' out where g: "remote_get w incoming = (w', out)" by (cases "remote_get w incoming")
      with Ready_remote Some Remote assms have "tagged (rw_id w) out = Return evs"
        by (simp add: collect_handle_def)
      from tagged_Return[OF this] obtain es where "out = Return es" and e: "evs = map (Pair (rw_id w)) es"
        by blast
      with g have "list_all (\<lambda>e. \<not> is_capacity e) es" by (auto dest: remote_get_no_capacity)
      with e show ?thesis by (simp add: list_all_iff)
    qed
  qed
qed

lemma collect_handles_no_capacity:
  "collect_handles world m rs = (m', Return evs) \<Longrightarrow> list_all (\<lambda>e. \<not> is_capacity (snd e)) evs"
proof (induction rs arbitrary: m m' evs)
  case Nil
  then show ?case by simp
next
  case (Cons r rs)
  from Cons.prems have
    "and_then (collect_handle world m r) (\<lambda>m1 evs.
       and_then (collect_handles world m1 rs) (\<lambda>m2 evs'. (m2, Return (evs @ evs')))) = (m', Return evs)"
    by simp
  from and_then_Return[OF this] obtain m1 e1 where h: "collect_handle world m r = (m1, Return e1)"
    and r: "and_then (collect_handles world m1 rs) (\<lambda>m2 evs'. (m2, Return (e1 @ evs'))) = (m', Return evs)"
    by blast
  from and_then_Return[OF r] obtain m2 e2 where l: "collect_handles world m1 rs = (m2, Return e2)"
    and e: "evs = e1 @ e2"
    by auto
  from collect_handle_no_capacity[OF h] Cons.IH[OF l] e show ?case by simp
qed

lemma collect_events_no_capacity:
  assumes "collect_events m world = (m', Return evs)"
    and "list_all (\<lambda>e. \<not> is_capacity e) (pending_local_events m)"
  shows "list_all (\<lambda>e. \<not> is_capacity (snd e)) evs"
proof (cases "get_local m")
  case None
  with assms(1) show ?thesis by (auto simp: collect_events_def dest: collect_handles_no_capacity)
next
  case (Some w)
  let ?m1 = "put_worker (Local (child_activity world (w\<lparr>lw_events := []\<rparr>))) m"
  from Some assms(1) have
    "and_then (collect_handles world ?m1 (filter (waited_on ?m1) (w_ready world)))
       (\<lambda>m2 evs. (m2, Return (map (Pair (lw_id w)) (lw_events w) @ evs))) = (m', Return evs)"
    by (simp add: collect_events_def Let_def)
  from and_then_Return[OF this] obtain m2 e2 where
    l: "collect_handles world ?m1 (filter (waited_on ?m1) (w_ready world)) = (m2, Return e2)"
    and e: "evs = map (Pair (lw_id w)) (lw_events w) @ e2"
    by auto
  from assms(2) Some have "list_all (\<lambda>e. \<not> is_capacity e) (lw_events w)"
    by (simp add: pending_local_events_def)
  with collect_handles_no_capacity[OF l] e show ?thesis by (auto simp: list_all_iff)
qed

lemma poll_events_subset:
  "poll_events m evs = (m', Return ys) \<Longrightarrow> set ys \<subseteq> set evs"
proof (induction evs arbitrary: m m' ys)
  case Nil
  then show ?case by simp
next
  case (Cons x rest)
  obtain ident ev where x: "x = (ident, ev)" by (cases x)
  show ?case
  proof (cases ev)
    case (EVT_HANDSHAKE_RESPONSE err)
    show ?thesis
    proof (cases err)
      case None
      with Cons.prems x EVT_HANDSHAKE_RESPONSE show ?thesis using Cons.IH by auto
    next
      case (Some e)
      with Cons.prems x EVT_HANDSHAKE_RESPONSE obtain m1 where
        "poll_events m1 rest = (m', Return ys)"
        by (auto simp: Let_def split: option.splits)
      from Cons.IH[OF this] show ?thesis by auto
    qed
  next
    case (EVT_CAPACITY n b)
    with Cons.prems x obtain m1 zs where "poll_events m rest = (m1, Return zs)"
      and "ys = (ident, ev) # zs"
      by (auto dest!: and_then_Return)
    then show ?thesis using Cons.IH[of m m1 zs] x by auto
  next
    case (EVT_TASK_DONE t e bt)
    with Cons.prems x obtain m1 zs where "poll_events m rest = (m1, Return zs)"
      and "ys = (ident, ev) # zs"
      by (auto dest!: and_then_Return)
    then show ?thesis using Cons.IH[of m m1 zs] x by auto
  next
    case EVT_SHUTDOWN
    with Cons.prems x obtain m0 m1 zs where "poll_events m0 rest = (m1, Return zs)"
      and "ys = (ident, ev) # zs"
      by (auto split: option.splits dest!: and_then_Return)
    then show ?thesis using Cons.IH[of m0 m1 zs] x by auto
  qed
qed

lemma filter_capacity_synthesized:
  "filter (\<lambda>e. is_capacity (snd e)) (synthesized workers) = synthesized workers"
  by (simp add: synthesized_def filter_map o_def)

text \<open>
  Claim C4. Whenever \<^verbatim>\<open>Manager.poll\<close> runs to its end (the local worker holding no
  \<^verbatim>\<open>CAPACITY\<close> event of its own, as it never does), the \<^verbatim>\<open>CAPACITY\<close> events it yields are
  exactly the synthesized ones, and they come after all drained events: one for each worker
  left in the worker map whose idle-thread count (capacity minus the threads of its running
  tasks) is positive, carrying that count, with overcommit set exactly when the worker is a
  largest worker (no worker of the map has a greater capacity) and all of its capacity is
  idle. In the witness a child of the local worker finishes during the poll: the drained
  \<^verbatim>\<open>TASK_DONE\<close> comes first; the half-idle local worker and the idle remote worker of the
  same, largest capacity get their events, only the latter with overcommit; the remote
  worker without idle threads gets none; and the idle remote worker of a smaller capacity
  gets its event without overcommit.
\<close>

theorem poll_capacity:
  assumes "manager_poll m world = (m', Return events)"
    and "list_all (\<lambda>e. \<not> is_capacity e) (pending_local_events m)"
  shows "filter (\<lambda>e. is_capacity (snd e)) events = synthesized (m_workers m') \<and>
         (\<exists>drained. events = drained @ synthesized (m_workers m') \<and>
                     list_all (\<lambda>e. \<not> is_capacity (snd e)) drained)"
proof -
  from poll_decompose[OF assms(1)] obtain ok m1 m2 collected drained where
    a: "auto_connect_to_workers m world = (m1, Return ok)"
    and c: "collect_events m1 world = (m2, Return collected)"
    and p: "poll_events m2 collected = (m', Return drained)"
    and e: "events = drained @ capacity_events (m_workers m')"
    by blast
  from a have "pending_local_events m1 = pending_local_events m"
    using auto_connect_get_local[of m world] by (simp add: pending_local_events_def)
  with assms(2) have "list_all (\<lambda>e. \<not> is_capacity (snd e)) collected"
    using collect_events_no_capacity[OF c] by simp
  with poll_events_subset[OF p] have d: "list_all (\<lambda>e. \<not> is_capacity (snd e)) drained"
    by (auto simp: list_all_iff)
  then have "filter (\<lambda>e. is_capacity (snd e)) drained = []"
    by (auto simp: list_all_iff filter_empty_conv)
  with e d show ?thesis
    by (simp add: capacity_events_eq filter_capacity_synthesized)
qed


lemmas poll_unfold =
  manager_poll_def check_started_def auto_connect_to_workers_def and_then_def
  collect_events_def get_local_def put_worker_def child_activity_def waited_on_def
  collect_handle_def tagged_def remote_get_def remote_check_running_def remote_shutdown_def
  dict_pop_def capacity_events_def capacity_event_def dict_values_def max_threads_def
  idle_threads_def

lemmas example_unfold =
  busy_manager_def busy_local_def waiting_manager_def idle_local_def connecting_remote_def
  quiet_world_def refusing_world_def task7_def task8_def

lemma poll_crowded:
  "snd (manager_poll crowded_manager finishing_world) =
     Return [(''local'', EVT_TASK_DONE task7 None None), (''local'', EVT_CAPACITY 2 False),
             (''w2'', EVT_CAPACITY 4 True), (''w4'', EVT_CAPACITY 2 False)]"
  by (simp add: poll_unfold example_unfold crowded_manager_def finishing_world_def
      running_remote_def full_remote_def small_remote_def task9_def local_get_def Let_def)

theorem poll_capacity_witness:
  "snd (manager_poll crowded_manager finishing_world) =
     Return [(''local'', EVT_TASK_DONE task7 None None), (''local'', EVT_CAPACITY 2 False),
             (''w2'', EVT_CAPACITY 4 True), (''w4'', EVT_CAPACITY 2 False)] \<and>
   list_all (\<lambda>e. \<not> is_capacity e) (pending_local_events crowded_manager) \<and>
   synthesized (m_workers (fst (manager_poll crowded_manager finishing_world))) =
     [(''local'', EVT_CAPACITY 2 False), (''w2'', EVT_CAPACITY 4 True),
      (''w4'', EVT_CAPACITY 2 False)] \<and>
   map fst (m_workers (fst (manager_poll crowded_manager finishing_world))) =
     [''local'', ''w2'', ''w3'', ''w4'']"
proof -
  let ?events = "[(''local'', EVT_TASK_DONE task7 None None), (''local'', EVT_CAPACITY 2 False),
                  (''w2'', EVT_CAPACITY 4 True), (''w4'', EVT_CAPACITY 2 False)]"
  have h: "manager_poll crowded_manager finishing_world =
           (fst (manager_poll crowded_manager finishing_world), Return ?events)"
    using poll_crowded by (cases "manager_poll crowded_manager finishing_world") simp
  have p: "list_all (\<lambda>e. \<not> is_capacity e) (pending_local_events crowded_manager)"
    by (simp add: pending_local_events_def get_local_def crowded_manager_def busy_local_def)
  from poll_capacity[OF h p]
  have "filter (\<lambda>e. is_capacity (snd e)) ?events =
        synthesized (m_workers (fst (manager_poll crowded_manager finishing_world)))"
    by (rule conjunct1)
  then have s: "synthesized (m_workers (fst (manager_poll crowded_manager finishing_world))) =
        [(''local'', EVT_CAPACITY 2 False), (''w2'', EVT_CAPACITY 4 True),
         (''w4'', EVT_CAPACITY 2 False)]"
    by simp
  have k: "map fst (m_workers (fst (manager_poll crowded_manager finishing_world))) =
           [''local'', ''w2'', ''w3'', ''w4'']"
    by (simp add: poll_unfold example_unfold crowded_manager_def finishing_world_def
        running_remote_def full_remote_def small_remote_def task9_def local_get_def Let_def)
  from poll_crowded p s k show ?thesis by blast
qed

section \<open>What \<^verbatim>\<open>LocalWorker.get\<close> reports\<close>

text \<open>
  Claim C8. \<^verbatim>\<open>LocalWorker.get(handle)\<close> on a running worker, for a registered handle: when
  the joined child exited with a non-zero code, the result is the single \<^verbatim>\<open>TASK_DONE\<close> event
  of the joined task with the error \<^verbatim>\<open>NodeError("Process terminated with exit code N")\<close>
  and no backtrace, whatever the queue holds; when it exited with code 0, the event carries
  the task that the running map holds for the task id at the head of the completion queue,
  with the error and backtrace of that message. The witness joins child 3 (task 7) and is
  handed task 8.
\<close>

theorem local_get_task_done:
  assumes "lw_status w = RUNNING" and "map_of (lw_handles w) h = Some (p, task)"
  shows "(\<forall>code. exitcode p = Some code \<and> code \<noteq> 0 \<longrightarrow>
            snd (local_get w h) =
              Return [EVT_TASK_DONE task
                (Some (NodeError (''Process terminated with exit code '' @ string_of_int code))) None]) \<and>
         (\<forall>key err backtrace queue' task'.
            exitcode p = Some 0 \<and> lw_queue w = (key, err, backtrace) # queue' \<and>
            map_of (lw_running w) key = Some task' \<longrightarrow>
            snd (local_get w h) = Return [EVT_TASK_DONE task' err backtrace])"
  using assms by (simp add: local_get_def dict_pop_def Let_def)

lemma string_of_int_m15: "string_of_int (- 15) = ''-15''"
  by (simp add: string_of_int_def string_of_nat.simps digit_char_def)

theorem local_get_task_done_witness:
  "lw_status crashed_local = RUNNING \<and>
   map_of (lw_handles crashed_local) 3 = Some (\<lparr>exitcode = Some (- 15)\<rparr>, task7) \<and>
   snd (local_get crashed_local 3) =
     Return [EVT_TASK_DONE task7 (Some (NodeError ''Process terminated with exit code -15'')) None] \<and>
   lw_status finished_local = RUNNING \<and>
   map_of (lw_handles finished_local) 3 = Some (\<lparr>exitcode = Some 0\<rparr>, task7) \<and>
   snd (local_get finished_local 3) = Return [EVT_TASK_DONE task8 None None] \<and>
   task8 \<noteq> task7"
proof -
  have a1: "lw_status crashed_local = RUNNING"
    and a2: "map_of (lw_handles crashed_local) 3 = Some (\<lparr>exitcode = Some (- 15)\<rparr>, task7)"
    by (simp_all add: crashed_local_def busy_local_def)
  have b1: "lw_status finished_local = RUNNING"
    and b2: "map_of (lw_handles finished_local) 3 = Some (\<lparr>exitcode = Some 0\<rparr>, task7)"
    and b3: "lw_queue finished_local = [(8, None, None), (7, Some (OtherError ''boom''), Some [''frame''])]"
    and b4: "map_of (lw_running finished_local) 8 = Some task8"
    by (simp_all add: finished_local_def busy_local_def)
  have c: "task8 \<noteq> task7" by (simp add: task7_def task8_def)
  from local_get_task_done[OF a1 a2]
  have "snd (local_get crashed_local 3) =
     Return [EVT_TASK_DONE task7 (Some (NodeError ''Process terminated with exit code -15'')) None]"
    by (simp add: string_of_int_m15)
  moreover from local_get_task_done[OF b1 b2] b3 b4
  have "snd (local_get finished_local 3) = Return [EVT_TASK_DONE task8 None None]"
    by simp
  ultimately show ?thesis using a1 a2 b1 b2 c by simp
qed

lemma sum_list_values_ge:
  "map_of d k = Some (t::node) \<Longrightarrow> node_threads t \<le> sum_list (map node_threads (dict_values d))"
  by (induction d) (auto simp: dict_values_def split: if_splits)

text \<open>
  Claim C9. When the joined child's exit code is non-zero, \<^verbatim>\<open>LocalWorker.get\<close> removes the
  handle entry and nothing else: the running map is as before, so the worker's idle-thread
  count is as before, and while the failed task is in the running map the idle count stays
  below the capacity by at least that task's threads.
\<close>

theorem local_get_failed_keeps_running:
  assumes "lw_status w = RUNNING" and "map_of (lw_handles w) h = Some (p, task)"
    and "exitcode p = Some code" and "code \<noteq> 0"
  shows "fst (local_get w h) = w\<lparr>lw_handles := AList.delete h (lw_handles w)\<rparr> \<and>
         lw_running (fst (local_get w h)) = lw_running w \<and>
         idle_threads (Local (fst (local_get w h))) = idle_threads (Local w) \<and>
         (map_of (lw_running w) (node_id task) = Some task \<longrightarrow>
            idle_threads (Local (fst (local_get w h))) \<le> lw_threads w - int (node_threads task))"
proof -
  have f: "fst (local_get w h) = w\<lparr>lw_handles := AList.delete h (lw_handles w)\<rparr>"
    using assms by (simp add: local_get_def dict_pop_def Let_def)
  have i: "idle_threads (Local (fst (local_get w h))) = idle_threads (Local w)"
    by (simp add: f idle_threads_def)
  have "map_of (lw_running w) (node_id task) = Some task \<Longrightarrow>
        idle_threads (Local w) \<le> lw_threads w - int (node_threads task)"
    using sum_list_values_ge[of "lw_running w" "node_id task" task]
    by (simp add: idle_threads_def)
  with f i show ?thesis by simp
qed

theorem local_get_failed_keeps_running_witness:
  "lw_status crashed_local = RUNNING \<and>
   map_of (lw_handles crashed_local) 3 = Some (\<lparr>exitcode = Some (- 15)\<rparr>, task7) \<and>
   exitcode \<lparr>exitcode = Some (- 15)\<rparr> = Some (- 15) \<and> (- 15 :: int) \<noteq> 0 \<and>
   map_of (lw_running crashed_local) (node_id task7) = Some task7 \<and>
   lw_running (fst (local_get crashed_local 3)) = [(7, task7), (8, task8)] \<and>
   map_of (lw_handles (fst (local_get crashed_local 3))) 3 = None \<and>
   idle_threads (Local (fst (local_get crashed_local 3))) = 1 \<and>
   idle_threads (Local (fst (local_get crashed_local 3))) \<le> lw_threads crashed_local - int (node_threads task7)"
proof -
  have a1: "lw_status crashed_local = RUNNING"
    and a2: "map_of (lw_handles crashed_local) 3 = Some (\<lparr>exitcode = Some (- 15)\<rparr>, task7)"
    and a3: "map_of (lw_running crashed_local) (node_id task7) = Some task7"
    and a4: "lw_running crashed_local = [(7, task7), (8, task8)]"
    and a5: "idle_threads (Local crashed_local) = 1"
    by (simp_all add: crashed_local_def busy_local_def task7_def task8_def idle_threads_def dict_values_def)
  have a6: "map_of (AList.delete 3 (lw_handles crashed_local)) (3::nat) = None"
    by (simp add: crashed_local_def)
  have e1: "exitcode \<lparr>exitcode = Some (- 15)\<rparr> = Some (- 15)" and e2: "(- 15 :: int) \<noteq> 0"
    by simp_all
  note th = local_get_failed_keeps_running[OF a1 a2 e1 e2]
  from th have t: "fst (local_get crashed_local 3) =
      crashed_local\<lparr>lw_handles := AList.delete 3 (lw_handles crashed_local)\<rparr>"
    by (rule conjunct1)
  from th have r: "lw_running (fst (local_get crashed_local 3)) = lw_running crashed_local"
    by blast
  from th have i: "idle_threads (Local (fst (local_get crashed_local 3))) = idle_threads (Local crashed_local)"
    by blast
  from th a3 have l: "idle_threads (Local (fst (local_get crashed_local 3)))
      \<le> lw_threads crashed_local - int (node_threads task7)"
    by blast
  have h: "map_of (lw_handles (fst (local_get crashed_local 3))) 3 = None"
    unfolding t using a6 by simp
  show ?thesis
    using a1 a2 e1 e2 a3 h l by (simp only: r i a4 a5 simp_thms)
qed

section \<open>The started-guard of the manager\<close>

lemma collect_workers_file_local: "m_local (fst (collect_workers_file m world d)) = m_local m"
  by (simp add: collect_workers_file_def Let_def add_effect_def json_blacklist_add_def
      split: content.splits option.splits secret_value.splits)

lemma connect_info_local: "m_local (fst (connect_info m world data any)) = m_local m"
  by (simp add: connect_info_def Let_def add_effect_def remote_connect_def RemoteWorker_def
      split: option.splits sum.splits)

lemma auto_connect_loop_local: "m_local (fst (auto_connect_loop m world ds any)) = m_local m"
proof (induction ds arbitrary: m any)
  case Nil
  show ?case by simp
next
  case (Cons d ds)
  show ?case
    unfolding auto_connect_loop.simps
  proof (rule and_then_fst, goal_cases)
    case 1
    show ?case by (rule collect_workers_file_local)
  next
    case (2 s a)
    then have s: "m_local s = m_local m"
      using collect_workers_file_local[of m world d] by simp
    show ?case
    proof (cases a)
      case None
      then show ?thesis using Cons.IH[of s any] s by simp
    next
      case (Some data)
      have "m_local (fst (and_then (connect_info s world data any)
               (\<lambda>m2 any_errors'. auto_connect_loop m2 world ds any_errors'))) = m_local m"
      proof (rule and_then_fst, goal_cases)
        case 1
        show ?case using connect_info_local[of s world data any] s by simp
      next
        case (2 s' a')
        then have "m_local s' = m_local m"
          using connect_info_local[of s world data any] s by simp
        then show ?case using Cons.IH[of s' a'] by simp
      qed
      with Some show ?thesis by simp
    qed
  qed
qed

lemma auto_connect_local: "m_local (fst (auto_connect_to_workers m world)) = m_local m"
proof (cases "case m_next_auto_connect m of None \<Rightarrow> False | Some t \<Rightarrow> t \<le> w_now world")
  case True
  have "m_local (fst (and_then (auto_connect_loop m world (if w_isdir world then w_listdir world else []) False)
             (\<lambda>m1 any_errors. (m1\<lparr>m_next_auto_connect := Some (w_now world + 15)\<rparr>,
                                 Return (\<not> any_errors))))) = m_local m"
  proof (rule and_then_fst, goal_cases)
    case 1
    show ?case by (rule auto_connect_loop_local)
  next
    case (2 s a)
    then show ?case
      using auto_connect_loop_local[of m world "if w_isdir world then w_listdir world else []" False]
      by simp
  qed
  with True show ?thesis by (simp add: auto_connect_to_workers_def)
next
  case False
  then show ?thesis by (simp add: auto_connect_to_workers_def)
qed

lemma start_installs_local:
  assumes "m_local m = None" and "w_requirements_ok world"
  shows "m_local (fst (manager_start m world)) = Some (w_uuid world)"
  using assms
  by (simp add: manager_start_def local_connect_def LocalWorker_def auto_connect_local put_worker_def)

lemma start_True_local:
  assumes "manager_start m world = (m', Return True)"
  shows "m_local m' \<noteq> None"
proof (cases "m_local m = None")
  case False
  with assms show ?thesis by (simp add: manager_start_def)
next
  case True
  show ?thesis
  proof (cases "w_requirements_ok world")
    case False
    with True assms show ?thesis
      by (simp add: manager_start_def local_connect_def LocalWorker_def)
  next
    case ok: True
    from start_installs_local[OF True ok] assms show ?thesis by simp
  qed
qed

lemmas start_unfold =
  manager_start_def Manager_def local_connect_def LocalWorker_def put_worker_def
  auto_connect_to_workers_def and_then_def collect_workers_file_def connect_info_def
  endswith_def add_effect_def json_blacklist_add_def RemoteWorker_def address_to_name_def
  remote_connect_def is_OSError_def is_ProcessError_def string_of_int_def string_of_nat.simps
  digit_char_def Let_def

lemmas world_unfold =
  quiet_world_def refusing_world_def unreachable_world_def reachable_world_def w1_file_def
  fresh_manager_def started_manager_def half_started_manager_def idle_local_def
  connecting_remote_def

lemma start_reachable:
  "manager_start fresh_manager reachable_world = (started_manager, Return True)"
  by (simp add: start_unfold world_unfold)

lemma start_unreachable:
  "manager_start fresh_manager unreachable_world = (half_started_manager, Return False)"
  by (simp add: start_unfold world_unfold)

lemma poll_half_started:
  "snd (manager_poll half_started_manager quiet_world) = Return [(''local'', EVT_CAPACITY 2 True)]"
  by (simp add: poll_unfold world_unfold)

text \<open>
  Claim C10, as amended. While the manager holds no local worker (\<^verbatim>\<open>_local is None\<close>),
  \<^verbatim>\<open>poll\<close>, \<^verbatim>\<open>start_task\<close> and \<^verbatim>\<open>wait_for_workers\<close> raise
  \<^verbatim>\<open>WorkerError("Manager not started")\<close> and leave the manager as it was. \<^verbatim>\<open>start\<close>
  installs the local worker as soon as the version checks passed, before auto-discovery;
  once a local worker is installed the guard passes and \<^verbatim>\<open>start\<close> raises
  \<^verbatim>\<open>WorkerError("Manager already started")\<close>, in particular after a \<^verbatim>\<open>start\<close> that
  returned true.
\<close>

theorem started_guards:
  "(m_local m = None \<longrightarrow>
      manager_poll m world = (m, Raise not_started) \<and>
      manager_start_task m ident task sentinel send_ok = (m, Raise not_started) \<and>
      wait_for_workers m worlds = Some (m, Raise not_started)) \<and>
   (m_local m = None \<and> w_requirements_ok world \<longrightarrow>
      m_local (fst (manager_start m world)) \<noteq> None) \<and>
   (m_local m \<noteq> None \<longrightarrow>
      check_started m = None \<and> manager_start m world = (m, Raise already_started)) \<and>
   (manager_start m world = (m', Return True) \<longrightarrow>
      manager_start m' world' = (m', Raise already_started))"
proof -
  have a: "m_local m = None \<Longrightarrow>
      manager_poll m world = (m, Raise not_started) \<and>
      manager_start_task m ident task sentinel send_ok = (m, Raise not_started) \<and>
      wait_for_workers m worlds = Some (m, Raise not_started)"
    by (simp add: manager_poll_def manager_start_task_def wait_for_workers_def check_started_def
        not_started_def)
  have b: "m_local m = None \<and> w_requirements_ok world \<Longrightarrow> m_local (fst (manager_start m world)) \<noteq> None"
    using start_installs_local[of m world] by simp
  have c: "\<And>m world. m_local m \<noteq> None \<Longrightarrow>
      check_started m = None \<and> manager_start m world = (m, Raise already_started)"
    by (auto simp: check_started_def manager_start_def already_started_def)
  have d: "manager_start m world = (m', Return True) \<Longrightarrow>
      manager_start m' world' = (m', Raise already_started)"
    using start_True_local[of m world m'] c[of m' world'] by simp
  from a b c[of m world] d show ?thesis by blast
qed

theorem started_guards_witness:
  "m_local fresh_manager = None \<and> w_requirements_ok reachable_world \<and>
   manager_poll fresh_manager quiet_world = (fresh_manager, Raise not_started) \<and>
   manager_start_task fresh_manager ''local'' task7 3 True = (fresh_manager, Raise not_started) \<and>
   wait_for_workers fresh_manager [quiet_world] = Some (fresh_manager, Raise not_started) \<and>
   manager_start fresh_manager reachable_world = (started_manager, Return True) \<and>
   m_local started_manager \<noteq> None \<and>
   check_started started_manager = None \<and>
   manager_start started_manager quiet_world = (started_manager, Raise already_started)"
proof -
  have a: "m_local fresh_manager = None" by (simp add: fresh_manager_def Manager_def)
  have b: "w_requirements_ok reachable_world" by (simp add: reachable_world_def quiet_world_def)
  have c: "m_local started_manager \<noteq> None" by (simp add: started_manager_def)
  note g1 = started_guards[of fresh_manager quiet_world "''local''" task7 3 True "[quiet_world]"]
  note g2 = started_guards[of fresh_manager reachable_world _ _ _ _ _ started_manager quiet_world]
  note g3 = started_guards[of started_manager quiet_world]
  from g1 a have p1: "manager_poll fresh_manager quiet_world = (fresh_manager, Raise not_started)"
    and p2: "manager_start_task fresh_manager ''local'' task7 3 True = (fresh_manager, Raise not_started)"
    and p3: "wait_for_workers fresh_manager [quiet_world] = Some (fresh_manager, Raise not_started)"
    by blast+
  from g2 start_reachable
  have p4: "manager_start started_manager quiet_world = (started_manager, Raise already_started)"
    by blast
  from g3 c have p5: "check_started started_manager = None" by blast
  from a b c p1 p2 p3 p4 p5 start_reachable show ?thesis by blast
qed

text \<open>
  Claim C10 as it is worded fails where \<^verbatim>\<open>start\<close> did not succeed and yet installed the
  local worker: with a discovery file of an unreachable worker \<^verbatim>\<open>start\<close> returns false,
  after which \<^verbatim>\<open>poll\<close> yields events instead of raising, and a second \<^verbatim>\<open>start\<close> raises
  "Manager already started".
\<close>

theorem start_failed_but_started:
  "manager_start fresh_manager unreachable_world = (half_started_manager, Return False) \<and>
   snd (manager_poll half_started_manager quiet_world) = Return [(''local'', EVT_CAPACITY 2 True)] \<and>
   snd (manager_poll half_started_manager quiet_world) \<noteq> Raise not_started \<and>
   manager_start half_started_manager reachable_world = (half_started_manager, Raise already_started)"
proof -
  have "manager_start half_started_manager reachable_world = (half_started_manager, Raise already_started)"
    by (simp add: manager_start_def half_started_manager_def already_started_def)
  with start_unreachable poll_half_started show ?thesis by simp
qed

section \<open>A refused handshake\<close>

lemma poll_events_no_handshake:
  "poll_events m evs = (m', Return ys) \<Longrightarrow> \<not> list_ex handshake_failed ys"
proof (induction evs arbitrary: m m' ys)
  case Nil
  then show ?case by simp
next
  case (Cons x rest)
  obtain ident ev where x: "x = (ident, ev)" by (cases x)
  show ?case
  proof (cases ev)
    case (EVT_HANDSHAKE_RESPONSE err)
    show ?thesis
    proof (cases err)
      case None
      with Cons.prems x EVT_HANDSHAKE_RESPONSE show ?thesis using Cons.IH by simp
    next
      case (Some e)
      with Cons.prems x EVT_HANDSHAKE_RESPONSE obtain m1 where
        "poll_events m1 rest = (m', Return ys)"
        by (auto simp: Let_def split: option.splits)
      then show ?thesis by (rule Cons.IH)
    qed
  next
    case (EVT_CAPACITY n b)
    with Cons.prems x obtain m1 zs where "poll_events m rest = (m1, Return zs)"
      and "ys = (ident, ev) # zs"
      by (auto dest!: and_then_Return)
    then show ?thesis using Cons.IH[of m m1 zs] EVT_CAPACITY by simp
  next
    case (EVT_TASK_DONE t e bt)
    with Cons.prems x obtain m1 zs where "poll_events m rest = (m1, Return zs)"
      and "ys = (ident, ev) # zs"
      by (auto dest!: and_then_Return)
    then show ?thesis using Cons.IH[of m m1 zs] EVT_TASK_DONE by simp
  next
    case EVT_SHUTDOWN
    with Cons.prems x obtain m0 m1 zs where "poll_events m0 rest = (m1, Return zs)"
      and "ys = (ident, ev) # zs"
      by (auto split: option.splits dest!: and_then_Return)
    then show ?thesis using Cons.IH[of m0 m1 zs] EVT_SHUTDOWN by simp
  qed
qed

lemma capacity_events_no_handshake: "\<not> list_ex handshake_failed (capacity_events workers)"
  by (auto simp: capacity_events_def capacity_event_def list_ex_iff)

lemma poll_no_handshake:
  assumes "manager_poll m world = (m', Return events)"
  shows "\<not> list_ex handshake_failed events"
proof -
  from poll_decompose[OF assms] obtain m2 collected drained where
    "poll_events m2 collected = (m', Return drained)"
    and e: "events = drained @ capacity_events (m_workers m')"
    by blast
  from this(1) have "\<not> list_ex handshake_failed drained" by (rule poll_events_no_handshake)
  with e show ?thesis using capacity_events_no_handshake[of "m_workers m'"] by simp
qed

lemma wait_loop_never_False: "wait_loop m worlds \<noteq> Some (m', Return False)"
proof (induction worlds arbitrary: m)
  case Nil
  show ?case by simp
next
  case (Cons world worlds)
  show ?case
  proof (cases "all_running m")
    case True
    then show ?thesis by simp
  next
    case False
    obtain m1 out where p: "manager_poll m world = (m1, out)" by (cases "manager_poll m world")
    show ?thesis
    proof (cases out)
      case (Return events)
      with p have "\<not> list_ex handshake_failed events" by (auto dest: poll_no_handshake)
      with False p Return show ?thesis using Cons.IH[of m1] by simp
    next
      case (Raise e)
      with False p show ?thesis by simp
    next
      case Blocks
      with False p show ?thesis by simp
    qed
  qed
qed

lemma wait_for_workers_never_False: "wait_for_workers m worlds \<noteq> Some (m', Return False)"
  by (simp add: wait_for_workers_def wait_loop_never_False split: option.splits)

lemma poll_events_handshake_failure:
  assumes "map_of (m_workers m) ident = Some w"
  shows "poll_events m [(ident, EVT_HANDSHAKE_RESPONSE (Some e))] =
         (m\<lparr>m_worker_blacklist := insert ident (m_worker_blacklist m),
            m_workers := AList.delete ident (m_workers m)\<rparr>, Return [])"
  using assms by (simp add: dict_pop_def Let_def)

lemma poll_refusing:
  "manager_poll waiting_manager refusing_world = (refused_manager, Return [(''local'', EVT_CAPACITY 2 True)])"
  by (simp add: poll_unfold example_unfold refused_manager_def Let_def)

text \<open>
  Claim C2. When a worker's \<^verbatim>\<open>HANDSHAKE_RESPONSE\<close> carries an error, \<^verbatim>\<open>poll\<close> blacklists
  the worker's id and removes the worker from the worker map, so that \<^verbatim>\<open>start_task\<close> for
  that id returns false without reaching any worker. But \<^verbatim>\<open>poll\<close> never yields a
  handshake response, so the test in \<^verbatim>\<open>wait_for_workers\<close> never fires: here it returns
  true, and by \<open>wait_for_workers_never_False\<close> it returns false for no manager and no
  sequence of worlds.
\<close>

theorem wait_for_workers_handshake_failure:
  "wait_for_workers waiting_manager [refusing_world] = Some (refused_manager, Return True) \<and>
   ''w1'' \<in> m_worker_blacklist refused_manager \<and>
   map_of (m_workers refused_manager) ''w1'' = None \<and>
   manager_start_task refused_manager ''w1'' task7 5 True = (refused_manager, Return False)"
proof -
  have nr: "\<not> all_running waiting_manager"
    by (simp add: all_running_def waiting_manager_def dict_values_def connecting_remote_def)
  have r: "all_running refused_manager"
    by (simp add: all_running_def refused_manager_def dict_values_def idle_local_def)
  have "wait_for_workers waiting_manager [refusing_world] = Some (refused_manager, Return True)"
    using nr r poll_refusing
    by (simp add: wait_for_workers_def check_started_def waiting_manager_def)
  moreover have "manager_start_task refused_manager ''w1'' task7 5 True = (refused_manager, Return False)"
    by (simp add: manager_start_task_def check_started_def refused_manager_def waiting_manager_def)
  ultimately show ?thesis by (simp add: refused_manager_def)
qed

section \<open>Auto-discovery\<close>












lemma and_then_Return_left [simp]: "and_then (s, Return a) f = f s a"
  by (simp add: and_then_def)





text \<open>
  What the amended claim leaves aside: a port outside 0..65535, a secret that is no string
  and a name resolution that raises something else than \<^verbatim>\<open>OSError\<close> end the pass with an
  uncaught error, the file neither unlinked nor blacklisted.
\<close>

lemma listed_bad_port:
  assumes "endswith (d_filename d) ''.json''" and "d_isfile d"
    and "d_filename d \<notin> m_json_blacklist m"
    and "d_content d = Object data" and "f_secret data = Some (Secret_string encoded)"
    and "w_b64decode world encoded = Some secret"
    and "f_id data = Some ident" and "f_host data = Some host" and "f_port data = Some port"
    and "port < 0 \<or> 65535 < port"
    and "address_to_name (w_getnameinfo world) host port = Inr name"
    and "ident \<notin> m_worker_blacklist m" and "map_of (m_workers m) ident = None"
  shows "auto_connect_loop m world (d # after) any =
         (add_effect (Connect_attempt ident host port secret) (add_effect (Read_file (d_filename d)) m),
          Raise OverflowError)"
  using assms
  by (auto simp: collect_workers_file_def connect_info_def Let_def add_effect_def
      remote_connect_def RemoteWorker_def and_then_def)

lemma listed_bad_name:
  assumes "endswith (d_filename d) ''.json''" and "d_isfile d"
    and "d_filename d \<notin> m_json_blacklist m"
    and "d_content d = Object data" and "f_secret data = Some (Secret_string encoded)"
    and "w_b64decode world encoded = Some secret"
    and "f_id data = Some ident" and "f_host data = Some host" and "f_port data = Some port"
    and "address_to_name (w_getnameinfo world) host port = Inl e"
    and "ident \<notin> m_worker_blacklist m"
  shows "auto_connect_loop m world (d # after) any =
         (add_effect (Read_file (d_filename d)) m, Raise e)"
  using assms
  by (simp add: collect_workers_file_def connect_info_def Let_def add_effect_def and_then_def)

lemma listed_bad_secret:
  assumes "endswith (d_filename d) ''.json''" and "d_isfile d"
    and "d_filename d \<notin> m_json_blacklist m"
    and "d_content d = Object data" and "f_secret data = Some Secret_other"
  shows "auto_connect_loop m world (d # after) any =
         (add_effect (Read_file (d_filename d)) m, Raise AttributeError)"
  using assms
  by (simp add: collect_workers_file_def Let_def and_then_def)







section \<open>Outdated nodes\<close>

text \<open>
  Claim C7. A node with no output files or with no input files is not outdated, whatever the
  cache says about any file, and its derived state is never \<open>OUTDATED\<close>. The witness adds
  the cases of the node graph's tests.
\<close>

theorem no_files_never_outdated:
  assumes "input_files node = [] \<or> output_files node = []"
  shows "\<not> is_outdated node cache \<and> derive_state node cache deps \<noteq> OUTDATED"
proof -
  have "\<not> is_outdated node cache"
    using assms by (auto simp: is_outdated_def min_mtime_def split: list.splits option.splits)
  then show ?thesis by (simp add: derive_state_def)
qed

theorem no_files_never_outdated_witness:
  "(input_files \<lparr>input_files = [''timestamp_a_younger''], output_files = []\<rparr> = [] \<or>
    output_files \<lparr>input_files = [''timestamp_a_younger''], output_files = []\<rparr> = []) \<and>
   \<not> is_outdated \<lparr>input_files = [''timestamp_a_younger''], output_files = []\<rparr> timestamps \<and>
   derive_state \<lparr>input_files = [''timestamp_a_younger''], output_files = []\<rparr> timestamps [] = DONE \<and>
   \<not> is_outdated \<lparr>input_files = [], output_files = [''timestamp_a_older'']\<rparr> timestamps \<and>
   is_outdated \<lparr>input_files = [''timestamp_a_younger''], output_files = [''timestamp_a_older'']\<rparr> timestamps \<and>
   \<not> is_outdated \<lparr>input_files = [''timestamp_a_older''], output_files = [''timestamp_a_younger'']\<rparr> timestamps"
proof -
  let ?n = "\<lparr>input_files = [''timestamp_a_younger''], output_files = []\<rparr>"
  let ?k = "\<lparr>input_files = [], output_files = [''timestamp_a_older'']\<rparr>"
  have h: "input_files ?n = [] \<or> output_files ?n = []" by simp
  have k: "input_files ?k = [] \<or> output_files ?k = []" by simp
  have d: "derive_state ?n timestamps [] = DONE"
    by (simp add: derive_state_def is_outdated_def files_exist_def min_mtime_def)
  have t: "is_outdated \<lparr>input_files = [''timestamp_a_younger''], output_files = [''timestamp_a_older'']\<rparr> timestamps"
    "\<not> is_outdated \<lparr>input_files = [''timestamp_a_older''], output_files = [''timestamp_a_younger'']\<rparr> timestamps"
    by (simp_all add: is_outdated_def files_exist_def min_mtime_def timestamps_def)
  from no_files_never_outdated[OF h, of timestamps "[]"] no_files_never_outdated[OF k, of timestamps "[]"] d t
  show ?thesis by simp
qed

section \<open>Sequential command sets\<close>

lemma run_from_shape:
  assumes "list_all (\<lambda>c. \<not> started c) cmds"
  shows "map started (fst (sequential_run_from i cmds)) =
           replicate (ran cmds) True @ replicate (length cmds - ran cmds) False \<and>
         map codes (fst (sequential_run_from i cmds)) = map codes cmds \<and>
         snd (sequential_run_from i cmds) = concat (map (\<lambda>j. [Run j, Join j]) [i..<i + ran cmds])"
  using assms
proof (induction cmds arbitrary: i)
  case Nil
  show ?case by (simp add: ran_def)
next
  case (Cons c cs)
  from Cons.prems have ns: "list_all (\<lambda>c. \<not> started c) cs" by simp
  show ?case
  proof (cases "list_ex truthy (codes c)")
    case True
    have r: "ran (c # cs) = 1" using True by (simp add: ran_def)
    have f: "map started cs = replicate (length cs) False"
      using ns by (induction cs) auto
    show ?thesis using True r f by (simp add: Let_def member_join_def)
  next
    case False
    have r: "ran (c # cs) = Suc (ran cs)" using False by (simp add: ran_def)
    obtain cs' calls where e: "sequential_run_from (Suc i) cs = (cs', calls)"
      by (cases "sequential_run_from (Suc i) cs")
    from Cons.IH[OF ns, of "Suc i"] e
    have ih: "map started cs' = replicate (ran cs) True @ replicate (length cs - ran cs) False"
      "map codes cs' = map codes cs"
      "calls = concat (map (\<lambda>j. [Run j, Join j]) [Suc i..<Suc i + ran cs])"
      by simp_all
    have u: "[i..<i + Suc (ran cs)] = i # [Suc i..<Suc i + ran cs]"
      by (simp add: upt_conv_Cons)
    show ?thesis using False r e ih u by (simp add: Let_def member_join_def)
  qed
qed

lemma join_unstarted:
  "list_all (\<lambda>c. \<not> started c) cs \<Longrightarrow>
   concat (map member_join cs) = concat (map (\<lambda>c. replicate (length (codes c)) Not_run) cs)"
  by (induction cs) (auto simp: member_join_def)

lemma run_from_join:
  assumes "list_all (\<lambda>c. \<not> started c) cmds"
  shows "sequential_join (fst (sequential_run_from i cmds)) =
         concat (map codes (take (ran cmds) cmds)) @
         concat (map (\<lambda>c. replicate (length (codes c)) Not_run) (drop (ran cmds) cmds))"
  using assms
proof (induction cmds arbitrary: i)
  case Nil
  show ?case by (simp add: sequential_join_def)
next
  case (Cons c cs)
  from Cons.prems have ns: "list_all (\<lambda>c. \<not> started c) cs" by simp
  show ?case
  proof (cases "list_ex truthy (codes c)")
    case True
    have r: "ran (c # cs) = 1" using True by (simp add: ran_def)
    show ?thesis
      using True r join_unstarted[OF ns]
      by (simp add: Let_def member_join_def sequential_join_def)
  next
    case False
    have r: "ran (c # cs) = Suc (ran cs)" using False by (simp add: ran_def)
    obtain cs' calls where e: "sequential_run_from (Suc i) cs = (cs', calls)"
      by (cases "sequential_run_from (Suc i) cs")
    from Cons.IH[OF ns, of "Suc i"] e
    have ih: "sequential_join cs' =
         concat (map codes (take (ran cs) cs)) @
         concat (map (\<lambda>c. replicate (length (codes c)) Not_run) (drop (ran cs) cs))"
      by simp
    show ?thesis
      using False r e ih by (simp add: Let_def member_join_def sequential_join_def)
  qed
qed

text \<open>
  Claim C6. Running a \<^verbatim>\<open>SequentialCmds\<close> whose members are not yet started runs and joins
  the members in order, up to and including the first member with a non-zero exit; the
  members after that one are left unstarted, and \<^verbatim>\<open>join\<close> then returns the return codes of
  the members that ran followed by \<^verbatim>\<open>None\<close> for every member that never started. The
  witness replays the three abort-on-error tests.
\<close>

theorem sequential_abort:
  assumes "list_all (\<lambda>c. \<not> started c) cmds"
  shows "map started (fst (sequential_run cmds)) =
           replicate (ran cmds) True @ replicate (length cmds - ran cmds) False \<and>
         snd (sequential_run cmds) = concat (map (\<lambda>j. [Run j, Join j]) [0..<ran cmds]) \<and>
         sequential_join (fst (sequential_run cmds)) =
           concat (map codes (take (ran cmds) cmds)) @
           concat (map (\<lambda>c. replicate (length (codes c)) Not_run) (drop (ran cmds) cmds))"
  using run_from_shape[OF assms, of 0] run_from_join[OF assms, of 0]
  by (simp add: sequential_run_def)

theorem sequential_abort_witness:
  "list_all (\<lambda>c. \<not> started c) [atomic 1, atomic 0, atomic 0] \<and>
   map started (fst (sequential_run [atomic 1, atomic 0, atomic 0])) = [True, False, False] \<and>
   snd (sequential_run [atomic 1, atomic 0, atomic 0]) = [Run 0, Join 0] \<and>
   sequential_join (fst (sequential_run [atomic 1, atomic 0, atomic 0])) = [Exit 1, Not_run, Not_run] \<and>
   list_all (\<lambda>c. \<not> started c) [atomic 0, atomic 1, atomic 0] \<and>
   sequential_join (fst (sequential_run [atomic 0, atomic 1, atomic 0])) = [Exit 0, Exit 1, Not_run] \<and>
   list_all (\<lambda>c. \<not> started c) [atomic 0, atomic 0, atomic 1] \<and>
   snd (sequential_run [atomic 0, atomic 0, atomic 1]) = [Run 0, Join 0, Run 1, Join 1, Run 2, Join 2] \<and>
   sequential_join (fst (sequential_run [atomic 0, atomic 0, atomic 1])) = [Exit 0, Exit 0, Exit 1]"
proof -
  have h1: "list_all (\<lambda>c. \<not> started c) [atomic 1, atomic 0, atomic 0]"
    and h2: "list_all (\<lambda>c. \<not> started c) [atomic 0, atomic 1, atomic 0]"
    and h3: "list_all (\<lambda>c. \<not> started c) [atomic 0, atomic 0, atomic 1]"
    by (simp_all add: atomic_def)
  have r1: "ran [atomic 1, atomic 0, atomic 0] = 1"
    and r2: "ran [atomic 0, atomic 1, atomic 0] = 2"
    and r3: "ran [atomic 0, atomic 0, atomic 1] = 3"
    by (simp_all add: ran_def atomic_def truthy_def)
  have u: "[0..<3] = [0, 1, 2]" by (simp add: upt_rec)
  from sequential_abort[OF h1] sequential_abort[OF h2] sequential_abort[OF h3] h1 h2 h3
  show ?thesis
    unfolding r1 r2 r3 by (simp add: atomic_def u)
qed

section \<open>Parallel command sets\<close>

lemma first_failure_eq:
  assumes "f \<in> set cmds" and "par_started f" and "exit_code f \<noteq> 0"
    and "\<And>c. c \<in> set cmds \<Longrightarrow> par_started c \<Longrightarrow> exit_code c \<noteq> 0 \<Longrightarrow> exit_time f \<le> exit_time c"
  shows "first_failure cmds = Some (exit_time f)"
proof -
  have mem: "f \<in> set (failures cmds)"
    using assms(1-3) by (simp add: failures_def)
  then obtain c cs where cs: "failures cmds = c # cs"
    by (cases "failures cmds") auto
  have "fold min (map exit_time cs) (exit_time c) = Min (set (exit_time c # map exit_time cs))"
    by (simp only: Min.set_eq_fold)
  also have "\<dots> = Min (exit_time ` set (failures cmds))"
    by (simp add: cs)
  also have "\<dots> = exit_time f"
  proof (rule Min_eqI)
    show "finite (exit_time ` set (failures cmds))" by simp
    show "exit_time f \<in> exit_time ` set (failures cmds)" using mem by simp
    fix y assume "y \<in> exit_time ` set (failures cmds)"
    then obtain c' where "c' \<in> set (failures cmds)" and "y = exit_time c'" by auto
    then show "exit_time f \<le> y"
      using assms(4)[of c'] by (simp add: failures_def)
  qed
  finally show ?thesis by (simp add: first_failure_def cs)
qed

lemma first_failure_None:
  assumes "\<And>c. c \<in> set cmds \<Longrightarrow> par_started c \<Longrightarrow> exit_code c = 0"
  shows "first_failure cmds = None"
proof -
  have "failures cmds = []"
    using assms by (auto simp: failures_def filter_empty_conv)
  then show ?thesis by (simp add: first_failure_def)
qed

text \<open>
  Before \<^verbatim>\<open>run\<close> every member reports \<^verbatim>\<open>None\<close>; after a run in which no member fails,
  every member reports its own exit code; and after a run in which a member fails, the
  members that had exited by then report their own codes and the others the signal.
\<close>

lemma parallel_join_before_run:
  assumes "list_all (\<lambda>c. \<not> par_started c) cmds"
  shows "parallel_join cmds = replicate (length cmds) Not_run"
  using assms
  by (auto simp: parallel_join_def par_member_join_def list_all_iff map_replicate_const[symmetric])

lemma parallel_join_no_failure:
  assumes "list_all (\<lambda>c. exit_code c = 0) cmds"
  shows "parallel_join (parallel_run cmds) = map (\<lambda>c. Exit 0) cmds"
proof -
  have "first_failure (parallel_run cmds) = None"
    using assms by (intro first_failure_None) (auto simp: parallel_run_def list_all_iff)
  then show ?thesis
    using assms by (auto simp: parallel_join_def par_member_join_def parallel_run_def list_all_iff)
qed

lemma parallel_join_first_failure:
  assumes "f \<in> set cmds" and "exit_code f \<noteq> 0"
    and "\<And>c. c \<in> set cmds \<Longrightarrow> exit_code c \<noteq> 0 \<Longrightarrow> exit_time f \<le> exit_time c"
  shows "parallel_join (parallel_run cmds) =
         map (\<lambda>c. if exit_time f < exit_time c then Signal ''SIGTERM'' else Exit (exit_code c)) cmds"
proof -
  have "first_failure (parallel_run cmds) = Some (exit_time (f\<lparr>par_started := True\<rparr>))"
  proof (rule first_failure_eq)
    show "f\<lparr>par_started := True\<rparr> \<in> set (parallel_run cmds)"
      using assms(1) by (auto simp: parallel_run_def)
    show "par_started (f\<lparr>par_started := True\<rparr>)" by simp
    show "exit_code (f\<lparr>par_started := True\<rparr>) \<noteq> 0" using assms(2) by simp
    fix c assume "c \<in> set (parallel_run cmds)" and "exit_code c \<noteq> 0"
    then show "exit_time (f\<lparr>par_started := True\<rparr>) \<le> exit_time c"
      using assms(3) by (auto simp: parallel_run_def)
  qed
  then show ?thesis
    by (simp add: parallel_join_def par_member_join_def parallel_run_def)
qed

text \<open>
  Claim C5. After \<^verbatim>\<open>run\<close>, when a member exits with a non-zero code while every other member
  is still running, wherever in the set that member stands and however many members stand
  before and after it, \<^verbatim>\<open>join\<close> returns the exit code of that member at its position and
  \<^verbatim>\<open>SIGTERM\<close> for every other member. For the set of example E5, made of \<^verbatim>\<open>false\<close> and two
  \<^verbatim>\<open>sleep 10\<close>, the result is \<^verbatim>\<open>[1, "SIGTERM", "SIGTERM"]\<close>, and likewise with \<^verbatim>\<open>false\<close> in
  the second and in the third position.
\<close>

theorem parallel_termination:
  "(exit_code f \<noteq> 0 \<and> (\<forall>c \<in> set (before @ after). exit_time f < exit_time c) \<longrightarrow>
      parallel_join (parallel_run (before @ f # after)) =
        replicate (length before) (Signal ''SIGTERM'') @ Exit (exit_code f) #
        replicate (length after) (Signal ''SIGTERM'')) \<and>
   parallel_join (parallel_run [false_cmd, sleep_cmd, sleep_cmd]) =
     [Exit 1, Signal ''SIGTERM'', Signal ''SIGTERM''] \<and>
   parallel_join (parallel_run [sleep_cmd, false_cmd, sleep_cmd]) =
     [Signal ''SIGTERM'', Exit 1, Signal ''SIGTERM''] \<and>
   parallel_join (parallel_run [sleep_cmd, sleep_cmd, false_cmd]) =
     [Signal ''SIGTERM'', Signal ''SIGTERM'', Exit 1]"
proof -
  have general: "parallel_join (parallel_run (before @ f # after)) =
        replicate (length before) (Signal ''SIGTERM'') @ Exit (exit_code f) #
        replicate (length after) (Signal ''SIGTERM'')"
    if f: "exit_code f \<noteq> 0" and later: "\<forall>c \<in> set (before @ after). exit_time f < exit_time c"
    for f :: par_member and before after
  proof -
    have "parallel_join (parallel_run (before @ f # after)) =
          map (\<lambda>c. if exit_time f < exit_time c then Signal ''SIGTERM'' else Exit (exit_code c))
            (before @ f # after)"
    proof (rule parallel_join_first_failure)
      show "f \<in> set (before @ f # after)" by simp
      show "exit_code f \<noteq> 0" by (rule f)
      fix c assume "c \<in> set (before @ f # after)"
      then have "c = f \<or> c \<in> set (before @ after)" by auto
      then show "exit_time f \<le> exit_time c"
        using later by (auto intro: less_imp_le)
    qed
    also have "\<dots> = map (\<lambda>c. Signal ''SIGTERM'') before @ Exit (exit_code f) #
                     map (\<lambda>c. Signal ''SIGTERM'') after"
      using later by auto
    finally show ?thesis by (simp add: map_replicate_const)
  qed
  have e1: "parallel_join (parallel_run ([] @ false_cmd # [sleep_cmd, sleep_cmd])) =
            replicate (length ([] :: par_member list)) (Signal ''SIGTERM'') @ Exit (exit_code false_cmd) #
            replicate (length [sleep_cmd, sleep_cmd]) (Signal ''SIGTERM'')"
    by (rule general) (simp_all add: false_cmd_def sleep_cmd_def)
  have e2: "parallel_join (parallel_run ([sleep_cmd] @ false_cmd # [sleep_cmd])) =
            replicate (length [sleep_cmd]) (Signal ''SIGTERM'') @ Exit (exit_code false_cmd) #
            replicate (length [sleep_cmd]) (Signal ''SIGTERM'')"
    by (rule general) (simp_all add: false_cmd_def sleep_cmd_def)
  have e3: "parallel_join (parallel_run ([sleep_cmd, sleep_cmd] @ false_cmd # [])) =
            replicate (length [sleep_cmd, sleep_cmd]) (Signal ''SIGTERM'') @ Exit (exit_code false_cmd) #
            replicate (length ([] :: par_member list)) (Signal ''SIGTERM'')"
    by (rule general) (simp_all add: false_cmd_def sleep_cmd_def)
  have c: "exit_code false_cmd = 1" by (simp add: false_cmd_def)
  from e1 e2 e3 have
    "parallel_join (parallel_run [false_cmd, sleep_cmd, sleep_cmd]) =
       [Exit 1, Signal ''SIGTERM'', Signal ''SIGTERM'']"
    "parallel_join (parallel_run [sleep_cmd, false_cmd, sleep_cmd]) =
       [Signal ''SIGTERM'', Exit 1, Signal ''SIGTERM'']"
    "parallel_join (parallel_run [sleep_cmd, sleep_cmd, false_cmd]) =
       [Signal ''SIGTERM'', Signal ''SIGTERM'', Exit 1]"
    by (simp_all add: c numeral_2_eq_2)
  with general show ?thesis by blast
qed

theorem parallel_termination_witness:
  "exit_code \<lparr>exit_time = 3, exit_code = 2, par_started = False\<rparr> \<noteq> 0 \<and>
   exit_time \<lparr>exit_time = 3, exit_code = 2, par_started = False\<rparr> <
     exit_time \<lparr>exit_time = 5, exit_code = 0, par_started = False\<rparr> \<and>
   exit_time \<lparr>exit_time = 3, exit_code = 2, par_started = False\<rparr> <
     exit_time \<lparr>exit_time = 7, exit_code = 1, par_started = False\<rparr> \<and>
   parallel_join (parallel_run
     [\<lparr>exit_time = 5, exit_code = 0, par_started = False\<rparr>,
      \<lparr>exit_time = 3, exit_code = 2, par_started = False\<rparr>,
      \<lparr>exit_time = 7, exit_code = 1, par_started = False\<rparr>]) =
     [Signal ''SIGTERM'', Exit 2, Signal ''SIGTERM''] \<and>
   parallel_join [sleep_cmd, false_cmd, sleep_cmd] = [Not_run, Not_run, Not_run] \<and>
   parallel_join (parallel_run [true_cmd, true_cmd, true_cmd]) = [Exit 0, Exit 0, Exit 0]"
proof -
  let ?f = "\<lparr>exit_time = 3, exit_code = 2, par_started = False\<rparr>"
  let ?b = "[\<lparr>exit_time = 5, exit_code = 0, par_started = False\<rparr>]"
  let ?a = "[\<lparr>exit_time = 7, exit_code = 1, par_started = False\<rparr>]"
  have h: "exit_code ?f \<noteq> 0 \<and> (\<forall>c \<in> set (?b @ ?a). exit_time ?f < exit_time c)"
    by simp
  have r: "parallel_join (parallel_run (?b @ ?f # ?a)) =
           replicate (length ?b) (Signal ''SIGTERM'') @ Exit (exit_code ?f) #
           replicate (length ?a) (Signal ''SIGTERM'')"
    using mp[OF conjunct1[OF parallel_termination[of ?f ?b ?a]] h] .
  have n: "parallel_join [sleep_cmd, false_cmd, sleep_cmd] = [Not_run, Not_run, Not_run]"
    using parallel_join_before_run[of "[sleep_cmd, false_cmd, sleep_cmd]"]
    by (simp add: sleep_cmd_def false_cmd_def)
  have z: "parallel_join (parallel_run [true_cmd, true_cmd, true_cmd]) = [Exit 0, Exit 0, Exit 0]"
    using parallel_join_no_failure[of "[true_cmd, true_cmd, true_cmd]"]
    by (simp add: true_cmd_def)
  from h r n z show ?thesis by simp
qed

section \<open>Committing a command set\<close>

lemma commit_from_prefix:
  assumes "commit_from files before acc = (files1, n, None)"
    and "atomic_commit files1 c = (files2, Some e)"
  shows "n = length before \<and>
         commit_from files (before @ c # after) acc =
           (files2 - set (acc @ destinations before), Suc (length before), Some e)"
  using assms
proof (induction before arbitrary: files acc n)
  case Nil
  then show ?case by (simp add: destinations_def)
next
  case (Cons b bs)
  obtain f1 r1 where b: "atomic_commit files b = (f1, r1)" by (cases "atomic_commit files b")
  show ?case
  proof (cases r1)
    case (Some e')
    with Cons.prems(1) b show ?thesis by simp
  next
    case None
    obtain f2 k r2 where rest: "commit_from f1 bs (acc @ map snd (cmd_outputs b)) = (f2, k, r2)"
      by (cases "commit_from f1 bs (acc @ map snd (cmd_outputs b))")
    from Cons.prems(1) b None rest have eq: "f2 = files1" "n = Suc k" "r2 = None" by simp_all
    from rest eq have "commit_from f1 bs (acc @ map snd (cmd_outputs b)) = (files1, k, None)" by simp
    from Cons.IH[OF this Cons.prems(2)]
    have "k = length bs" and
      "commit_from f1 (bs @ c # after) (acc @ map snd (cmd_outputs b)) =
         (files2 - set ((acc @ map snd (cmd_outputs b)) @ destinations bs), Suc (length bs), Some e)"
      by simp_all
    with b None eq show ?thesis by (simp add: destinations_def)
  qed
qed

lemma commit_from_all:
  "commit_from files cmds acc = (files', n, None) \<Longrightarrow> n = length cmds"
proof (induction cmds arbitrary: files acc n)
  case Nil
  then show ?case by simp
next
  case (Cons c cs)
  obtain f1 r1 where b: "atomic_commit files c = (f1, r1)" by (cases "atomic_commit files c")
  show ?case
  proof (cases r1)
    case (Some e)
    with Cons.prems b show ?thesis by simp
  next
    case None
    obtain f2 k r2 where rest: "commit_from f1 cs (acc @ map snd (cmd_outputs c)) = (f2, k, r2)"
      by (cases "commit_from f1 cs (acc @ map snd (cmd_outputs c))")
    from Cons.prems b None rest have "n = Suc k" "r2 = None" "f2 = files'" by simp_all
    with rest Cons.IH[of f1 "acc @ map snd (cmd_outputs c)" k] show ?thesis by simp
  qed
qed

text \<open>
  Claim C1, as amended. \<^verbatim>\<open>commit\<close> of a command set calls the commits of its members in
  declaration order: when none raises, all of them were called. When the members before
  \<open>c\<close> commit and the commit of \<open>c\<close> raises, the error propagates, the members after \<open>c\<close>
  are not committed, and the outputs that the earlier members had committed are removed
  again: none of their destinations exists afterwards.
\<close>

theorem cmdset_commit_failure:
  "(cmdset_commit files cmds = (files', n, None) \<longrightarrow> n = length cmds) \<and>
   (cmdset_commit files before = (files1, k, None) \<and> atomic_commit files1 c = (files2, Some e) \<longrightarrow>
      cmdset_commit files (before @ c # after) =
        (files2 - set (destinations before), Suc (length before), Some e) \<and>
      set (destinations before) \<inter> fst (cmdset_commit files (before @ c # after)) = {})"
proof -
  have a: "cmdset_commit files cmds = (files', n, None) \<Longrightarrow> n = length cmds"
    unfolding cmdset_commit_def by (rule commit_from_all)
  have b: "cmdset_commit files before = (files1, k, None) \<and> atomic_commit files1 c = (files2, Some e) \<Longrightarrow>
      cmdset_commit files (before @ c # after) =
        (files2 - set (destinations before), Suc (length before), Some e)"
    unfolding cmdset_commit_def using commit_from_prefix[of files before "[]" files1 k c files2 e after]
    by simp
  from a b show ?thesis by auto
qed

lemma commit_cmd_1:
  "cmdset_commit staged_files [cmd_1] = ({''out/file1'', ''tmp/file2'', ''tmp/file3''}, 1, None)"
  by (auto simp: cmdset_commit_def atomic_commit_def cmd_1_def staged_files_def)

lemma commit_cmd_2:
  "atomic_commit {''out/file1'', ''tmp/file2'', ''tmp/file3''} cmd_2 =
     ({''out/file1'', ''tmp/file2'', ''tmp/file3''}, Some (OSError ''mocked failure''))"
  by (simp add: atomic_commit_def cmd_2_def)

theorem cmdset_commit_failure_witness:
  "cmdset_commit staged_files [cmd_1] = ({''out/file1'', ''tmp/file2'', ''tmp/file3''}, 1, None) \<and>
   (1::nat) = length [cmd_1] \<and>
   atomic_commit {''out/file1'', ''tmp/file2'', ''tmp/file3''} cmd_2 =
     ({''out/file1'', ''tmp/file2'', ''tmp/file3''}, Some (OSError ''mocked failure'')) \<and>
   cmdset_commit staged_files ([cmd_1] @ cmd_2 # [cmd_3]) =
     ({''tmp/file2'', ''tmp/file3''}, 2, Some (OSError ''mocked failure'')) \<and>
   set (destinations [cmd_1]) \<inter> fst (cmdset_commit staged_files ([cmd_1] @ cmd_2 # [cmd_3])) = {}"
proof -
  note t1 = cmdset_commit_failure[of staged_files "[cmd_1]" "{''out/file1'', ''tmp/file2'', ''tmp/file3''}" 1]
  note t2 = cmdset_commit_failure[of staged_files _ _ _ "[cmd_1]"
      "{''out/file1'', ''tmp/file2'', ''tmp/file3''}" 1 cmd_2
      "{''out/file1'', ''tmp/file2'', ''tmp/file3''}" "OSError ''mocked failure''" "[cmd_3]"]
  from t1 commit_cmd_1 have l: "(1::nat) = length [cmd_1]" by blast
  from t2 commit_cmd_1 commit_cmd_2
  have c: "cmdset_commit staged_files ([cmd_1] @ cmd_2 # [cmd_3]) =
        ({''out/file1'', ''tmp/file2'', ''tmp/file3''} - set (destinations [cmd_1]),
         Suc (length [cmd_1]), Some (OSError ''mocked failure''))"
    and d: "set (destinations [cmd_1]) \<inter> fst (cmdset_commit staged_files ([cmd_1] @ cmd_2 # [cmd_3])) = {}"
    by blast+
  have s: "{''out/file1'', ''tmp/file2'', ''tmp/file3''} - set (destinations [cmd_1]) = {''tmp/file2'', ''tmp/file3''}"
    by (auto simp: destinations_def cmd_1_def)
  from c have c': "cmdset_commit staged_files ([cmd_1] @ cmd_2 # [cmd_3]) =
     ({''tmp/file2'', ''tmp/file3''}, 2, Some (OSError ''mocked failure''))"
    unfolding s by simp
  from commit_cmd_1 l commit_cmd_2 c' d show ?thesis by blast
qed

text \<open>
  Claim C1 as it is worded fails on the scenario of the test: \<open>cmd_1\<close> commits
  \<^verbatim>\<open>file1\<close> to its destination, the commit of \<open>cmd_2\<close> raises, and afterwards
  \<^verbatim>\<open>file1\<close> is neither staged nor at its destination, while \<^verbatim>\<open>file2\<close> is still staged.
\<close>

theorem committed_outputs_removed:
  "fst (atomic_commit {''tmp/file1'', ''tmp/file2''} cmd_1) = {''out/file1'', ''tmp/file2''} \<and>
   cmdset_commit {''tmp/file1'', ''tmp/file2''} [cmd_1, cmd_2] =
     ({''tmp/file2''}, 2, Some (OSError ''mocked failure'')) \<and>
   ''out/file1'' \<notin> fst (cmdset_commit {''tmp/file1'', ''tmp/file2''} [cmd_1, cmd_2])"
  by (auto simp: cmdset_commit_def atomic_commit_def cmd_1_def cmd_2_def)

end
